theory Spec2Isabelle
  imports Complex_Main "HOL-Library.AList" "HOL-Library.Char_ord" "HOL-Library.List_Lexorder"
begin

section \<open>Values of the program\<close>

text \<open>
  The program is \<^verbatim>\<open>carreras_desde_pdf.py\<close>. Its texts are Python strings; here a text is a
  \<^typ>\<open>string\<close> whose characters are the code points 0..255. Its amounts are Python floats,
  that is IEEE 754 doubles: a finite one is written \<^verbatim>\<open>Finite q\<close> with its value \<^verbatim>\<open>q\<close>,
  and there are the two infinities and the NaN. The sign of zero is not kept.
\<close>

datatype pyfloat = Finite rat | PInf | NInf | NaN

text \<open>
  \<^verbatim>\<open>doble q\<close> is the double nearest to the real number \<^verbatim>\<open>q\<close>, ties going to the even
  significand: what \<^verbatim>\<open>float\<close> makes of a decimal text and what an operation on floats
  makes of its exact result. A positive \<^verbatim>\<open>q\<close> with \<^verbatim>\<open>2 ^ e \<le> q < 2 ^ (e + 1)\<close> is rounded
  to a multiple of \<^verbatim>\<open>2 ^ (e - 52)\<close>, of \<^verbatim>\<open>2 ^ (- 1074)\<close> when \<^verbatim>\<open>e < - 1022\<close>; when
  the rounded value reaches \<^verbatim>\<open>2 ^ 1024\<close> the result is infinite.
\<close>

definition pot2 :: "int \<Rightarrow> rat" where
  "pot2 k = (if 0 \<le> k then 2 ^ nat k else 1 / 2 ^ nat (- k))"

text \<open>The number of binary digits of a positive integer.\<close>

function bits :: "int \<Rightarrow> int" where
  "bits n = (if n \<le> 0 then 0 else 1 + bits (n div 2))"
  by auto
termination
  by (relation "measure nat") auto

text \<open>The \<^verbatim>\<open>e\<close> with \<^verbatim>\<open>2 ^ e \<le> q < 2 ^ (e + 1)\<close>, for a positive \<^verbatim>\<open>q\<close>.\<close>

definition exponente2 :: "rat \<Rightarrow> int" where
  "exponente2 q =
     (let (n, d) = quotient_of q;
          k = bits n - bits d
      in if pot2 k \<le> q then k else k - 1)"

text \<open>The nearest integer, the even one of two that are equally near.\<close>

definition redondear_entero :: "rat \<Rightarrow> int" where
  "redondear_entero m =
     (let f = \<lfloor>m\<rfloor>; r = m - of_int f
      in if r < 1 / 2 then f else if 1 / 2 < r then f + 1 else if f mod 2 = 0 then f else f + 1)"

definition doble_positivo :: "rat \<Rightarrow> rat option" where
  "doble_positivo q =
     (let e = exponente2 q;
          p = max e (- 1022) - 52;
          n = redondear_entero (q / pot2 p)
      in if 1024 \<le> e \<or> (e = 1023 \<and> n = 2 ^ 53) then None else Some (of_int n * pot2 p))"

definition doble :: "rat \<Rightarrow> pyfloat" where
  "doble q =
     (if q = 0 then Finite 0
      else if 0 < q then (case doble_positivo q of None \<Rightarrow> PInf | Some v \<Rightarrow> Finite v)
      else (case doble_positivo (- q) of None \<Rightarrow> NInf | Some v \<Rightarrow> Finite (- v)))"

text \<open>
  The parser of amounts below keeps the decimal value of the text it reads, so an amount
  \<^verbatim>\<open>Finite q\<close> that comes from a text stands for the double \<^verbatim>\<open>doble q\<close>. The program
  computes with amounts in one expression only, the tolerance test
  \<^verbatim>\<open>abs(a - b) > 0.01\<close>, and there the operands are taken as the doubles they are.
\<close>

fun como_doble :: "pyfloat \<Rightarrow> pyfloat" where
  "como_doble (Finite q) = doble q"
| "como_doble PInf = PInf"
| "como_doble NInf = NInf"
| "como_doble NaN = NaN"

text \<open>The subtraction, the absolute value and the comparison \<^verbatim>\<open>></\<close> of floats.\<close>

fun fsub :: "pyfloat \<Rightarrow> pyfloat \<Rightarrow> pyfloat" where
  "fsub (Finite a) (Finite b) = doble (a - b)"
| "fsub NaN _ = NaN"
| "fsub _ NaN = NaN"
| "fsub PInf PInf = NaN"
| "fsub NInf NInf = NaN"
| "fsub PInf _ = PInf"
| "fsub NInf _ = NInf"
| "fsub (Finite a) PInf = NInf"
| "fsub (Finite a) NInf = PInf"

fun fabs :: "pyfloat \<Rightarrow> pyfloat" where
  "fabs (Finite a) = Finite \<bar>a\<bar>"
| "fabs PInf = PInf"
| "fabs NInf = PInf"
| "fabs NaN = NaN"

fun fgt :: "pyfloat \<Rightarrow> pyfloat \<Rightarrow> bool" where
  "fgt (Finite a) (Finite b) = (b < a)"
| "fgt NaN _ = False"
| "fgt _ NaN = False"
| "fgt PInf PInf = False"
| "fgt PInf _ = True"
| "fgt NInf _ = False"
| "fgt (Finite a) PInf = False"
| "fgt (Finite a) NInf = True"

section \<open>Characters and strings as Python reads them\<close>

text \<open>
  The character classes below are Python's on the code points 0..255:
  \<^verbatim>\<open>str.isspace\<close> (also what \<^verbatim>\<open>str.strip()\<close> removes and what \<^verbatim>\<open>\s\<close> matches),
  the decimal digits (what \<^verbatim>\<open>\d\<close>, \<^verbatim>\<open>int\<close> and \<^verbatim>\<open>float\<close> accept),
  \<^verbatim>\<open>str.isdigit\<close> (the decimal digits and the three superscript digits) and the word
  characters of \<^verbatim>\<open>\w\<close> (\<^verbatim>\<open>str.isalnum\<close> or the underscore).
\<close>

definition codigo_de :: "char \<Rightarrow> nat" where
  "codigo_de c = of_char c"

definition py_isspace :: "char \<Rightarrow> bool" where
  "py_isspace c = (let n = codigo_de c in (9 \<le> n \<and> n \<le> 13) \<or> (28 \<le> n \<and> n \<le> 32) \<or> n = 133 \<or> n = 160)"

definition es_digito :: "char \<Rightarrow> bool" where
  "es_digito c = (let n = codigo_de c in 48 \<le> n \<and> n \<le> 57)"

definition py_isdigit :: "char \<Rightarrow> bool" where
  "py_isdigit c = (let n = codigo_de c in (48 \<le> n \<and> n \<le> 57) \<or> n = 178 \<or> n = 179 \<or> n = 185)"

definition es_mayuscula_ascii :: "char \<Rightarrow> bool" where
  "es_mayuscula_ascii c = (let n = codigo_de c in 65 \<le> n \<and> n \<le> 90)"

definition es_minuscula_ascii :: "char \<Rightarrow> bool" where
  "es_minuscula_ascii c = (let n = codigo_de c in 97 \<le> n \<and> n \<le> 122)"

definition es_palabra :: "char \<Rightarrow> bool" where
  "es_palabra c =
     (let n = codigo_de c in
        (48 \<le> n \<and> n \<le> 57) \<or> (65 \<le> n \<and> n \<le> 90) \<or> (97 \<le> n \<and> n \<le> 122) \<or> n = 95
        \<or> n = 170 \<or> n = 178 \<or> n = 179 \<or> n = 181 \<or> n = 185 \<or> n = 186
        \<or> (188 \<le> n \<and> n \<le> 190) \<or> (192 \<le> n \<and> n \<le> 214) \<or> (216 \<le> n \<and> n \<le> 246)
        \<or> (248 \<le> n \<and> n \<le> 255))"

text \<open>
  \<^verbatim>\<open>str.lower\<close> is exact on these code points. \<^verbatim>\<open>str.upper\<close> leaves the range for
  three of them (sharp s, y with diaeresis, micro sign); the model leaves those three
  unchanged. The program only compares upper-cased text with ASCII words and digits, which
  none of the three can produce.
\<close>

definition py_lower_char :: "char \<Rightarrow> char" where
  "py_lower_char c =
     (let n = codigo_de c in
        if (65 \<le> n \<and> n \<le> 90) \<or> (192 \<le> n \<and> n \<le> 222 \<and> n \<noteq> 215) then char_of (n + 32) else c)"

definition py_upper_char :: "char \<Rightarrow> char" where
  "py_upper_char c =
     (let n = codigo_de c in
        if (97 \<le> n \<and> n \<le> 122) \<or> (224 \<le> n \<and> n \<le> 254 \<and> n \<noteq> 247) then char_of (n - 32) else c)"

definition py_lower :: "string \<Rightarrow> string" where
  "py_lower s = map py_lower_char s"

definition py_upper :: "string \<Rightarrow> string" where
  "py_upper s = map py_upper_char s"

definition py_strip :: "string \<Rightarrow> string" where
  "py_strip s = rev (dropWhile py_isspace (rev (dropWhile py_isspace s)))"

text \<open>
  \<^verbatim>\<open>s.split(sep)\<close> for a separator of one character. The result is never empty, so
  the first branch of the case below is never taken.
\<close>

fun py_split :: "char \<Rightarrow> string \<Rightarrow> string list" where
  "py_split sep [] = [[]]"
| "py_split sep (c # cs) =
     (if c = sep then [] # py_split sep cs
      else (case py_split sep cs of [] \<Rightarrow> [[c]] | p # ps \<Rightarrow> (c # p) # ps))"

text \<open>\<^verbatim>\<open>s.find(sub)\<close>, with None for -1, and \<^verbatim>\<open>sub in s\<close>.\<close>

fun py_find :: "string \<Rightarrow> string \<Rightarrow> nat option" where
  "py_find sub [] = (if sub = [] then Some 0 else None)"
| "py_find sub (c # cs) =
     (if take (length sub) (c # cs) = sub then Some 0 else map_option Suc (py_find sub cs))"

definition contiene :: "string \<Rightarrow> string \<Rightarrow> bool" where
  "contiene sub s = (py_find sub s \<noteq> None)"

definition py_startswith :: "string \<Rightarrow> string \<Rightarrow> bool" where
  "py_startswith s pre = (take (length pre) s = pre)"

section \<open>Python's int and float on strings\<close>

text \<open>
  A digit part is \<^verbatim>\<open>digit (["_"] digit)*\<close>. \<^verbatim>\<open>leer_digitos\<close> reads the longest one at
  the head of the text and returns its digits and the rest; \<^verbatim>\<open>seguir_digitos\<close> reads
  \<^verbatim>\<open>(["_"] digit)*\<close>.
\<close>

fun seguir_digitos :: "string \<Rightarrow> string \<times> string" where
  "seguir_digitos [] = ([], [])"
| "seguir_digitos (c # cs) =
     (if es_digito c then (case seguir_digitos cs of (ds, r) \<Rightarrow> (c # ds, r))
      else if c = CHR ''_'' then
        (case cs of
           [] \<Rightarrow> ([], c # cs)
         | d # cs' \<Rightarrow>
             if es_digito d then (case seguir_digitos cs' of (ds, r) \<Rightarrow> (d # ds, r))
             else ([], c # cs))
      else ([], c # cs))"

definition leer_digitos :: "string \<Rightarrow> string \<times> string" where
  "leer_digitos s =
     (case s of
        [] \<Rightarrow> ([], [])
      | c # cs \<Rightarrow>
          if es_digito c then (case seguir_digitos cs of (ds, r) \<Rightarrow> (c # ds, r))
          else ([], s))"

definition valor_digito :: "char \<Rightarrow> nat" where
  "valor_digito c = codigo_de c - 48"

definition nat_de_digitos :: "string \<Rightarrow> nat" where
  "nat_de_digitos ds = foldl (\<lambda>n c. 10 * n + valor_digito c) 0 ds"

definition quitar_signo :: "string \<Rightarrow> bool \<times> string" where
  "quitar_signo s =
     (case s of
        [] \<Rightarrow> (False, [])
      | c # r \<Rightarrow> if c = CHR ''-'' then (True, r) else if c = CHR ''+'' then (False, r) else (False, s))"

text \<open>\<^verbatim>\<open>int(s)\<close>: None stands for ValueError.\<close>

definition py_int :: "string \<Rightarrow> int option" where
  "py_int s =
     (let (neg, r) = quitar_signo (py_strip s);
          (ds, resto) = leer_digitos r
      in if ds \<noteq> [] \<and> resto = []
         then Some (if neg then - int (nat_de_digitos ds) else int (nat_de_digitos ds))
         else None)"

text \<open>The exponent of a float literal: empty, or \<^verbatim>\<open>("e" | "E") ["+" | "-"] digitpart\<close>.\<close>

definition exponente :: "string \<Rightarrow> int option" where
  "exponente s =
     (case s of
        [] \<Rightarrow> Some 0
      | c # r \<Rightarrow>
          if c = CHR ''e'' \<or> c = CHR ''E'' then
            (let (neg, r') = quitar_signo r;
                 (ds, resto) = leer_digitos r'
             in if ds \<noteq> [] \<and> resto = []
                then Some (if neg then - int (nat_de_digitos ds) else int (nat_de_digitos ds))
                else None)
          else None)"

definition diez_a_la :: "int \<Rightarrow> rat" where
  "diez_a_la e = (if 0 \<le> e then 10 ^ nat e else 1 / 10 ^ nat (- e))"

text \<open>\<^verbatim>\<open>[digitpart] "." digitpart | digitpart ["."]\<close>, then the exponent.\<close>

definition numero :: "string \<Rightarrow> rat option" where
  "numero s =
     (let (ent, r1) = leer_digitos s;
          (frac, r2) = (if r1 \<noteq> [] \<and> hd r1 = CHR ''.'' then leer_digitos (tl r1) else ([], r1))
      in if ent = [] \<and> frac = [] then None
         else (case exponente r2 of
                 None \<Rightarrow> None
               | Some e \<Rightarrow>
                   Some ((of_int (int (nat_de_digitos ent)) + of_int (int (nat_de_digitos frac)) / 10 ^ length frac)
                         * diez_a_la e)))"

text \<open>\<^verbatim>\<open>float(s)\<close>: None stands for ValueError.\<close>

definition py_float :: "string \<Rightarrow> pyfloat option" where
  "py_float s =
     (let (neg, r) = quitar_signo (py_strip s);
          m = py_lower r
      in if m = ''inf'' \<or> m = ''infinity'' then Some (if neg then NInf else PInf)
         else if m = ''nan'' then Some NaN
         else (case numero r of
                 None \<Rightarrow> None
               | Some q \<Rightarrow> Some (Finite (if neg then - q else q))))"

section \<open>The monetary parser\<close>

text \<open>
  \<^verbatim>\<open>_parsear_monto_str\<close>. A \<^verbatim>\<open>try: return float(..) except ValueError: pass\<close> is the
  case distinction on the result of \<^const>\<open>py_float\<close>.
\<close>

definition parsear_monto_str :: "string \<Rightarrow> pyfloat option" where
  "parsear_monto_str valor_str =
     (let s = py_strip valor_str in
      if s = [] then None
      else if CHR '','' \<in> set s then
        py_float (map (\<lambda>c. if c = CHR '','' then CHR ''.'' else c) (filter (\<lambda>c. c \<noteq> CHR ''.'') s))
      else if CHR ''.'' \<in> set s then
        (let partes = py_split (CHR ''.'') s in
         if 2 \<le> length partes \<and> list_all (\<lambda>p. p \<noteq> [] \<and> list_all py_isdigit p) partes
            \<and> length (last partes) = 3
         then (case py_float (filter (\<lambda>c. c \<noteq> CHR ''.'') s) of
                 Some v \<Rightarrow> Some v
               | None \<Rightarrow> py_float s)
         else py_float s)
      else py_float s)"

text \<open>
  The rules of the monetary parser in the words of the specification, applied to a token as
  it is: a comma makes the periods thousands separators and the comma the decimal point; a
  token with periods only, whose period-separated segments are all digits and whose last
  segment has three digits, loses its periods; anything else is parsed as it is.
\<close>

definition monto_segun_reglas :: "string \<Rightarrow> pyfloat option" where
  "monto_segun_reglas token =
     (if token = [] then None
      else if CHR '','' \<in> set token then
        py_float (map (\<lambda>c. if c = CHR '','' then CHR ''.'' else c) (filter (\<lambda>c. c \<noteq> CHR ''.'') token))
      else if CHR ''.'' \<in> set token then
        (if list_all (\<lambda>p. p \<noteq> [] \<and> list_all es_digito p) (py_split (CHR ''.'') token)
            \<and> length (last (py_split (CHR ''.'') token)) = 3
         then py_float (filter (\<lambda>c. c \<noteq> CHR ''.'') token)
         else py_float token)
      else py_float token)"

section \<open>The race-range expander\<close>

text \<open>A segment \<^verbatim>\<open>X-Y\<close>: both ends are parsed inside one \<^verbatim>\<open>try\<close>.\<close>

definition expandir_rango :: "string \<Rightarrow> int list option" where
  "expandir_rango parte =
     (case py_split (CHR ''-'') parte of
        [a, b] \<Rightarrow>
          (case py_int (py_strip a) of
             None \<Rightarrow> None
           | Some inicio \<Rightarrow>
               (case py_int (py_strip b) of
                  None \<Rightarrow> None
                | Some fin \<Rightarrow> Some [inicio..fin]))
      | _ \<Rightarrow> None)"

text \<open>The loop \<^verbatim>\<open>for parte in partes\<close> of the comma branch.\<close>

fun expandir_partes :: "string list \<Rightarrow> int list" where
  "expandir_partes [] = []"
| "expandir_partes (parte # ps) =
     (if py_strip parte = [] then expandir_partes ps
      else if CHR ''-'' \<in> set (py_strip parte) then
        (case expandir_rango (py_strip parte) of None \<Rightarrow> [] | Some r \<Rightarrow> r) @ expandir_partes ps
      else (case py_int (py_strip parte) of None \<Rightarrow> [] | Some n \<Rightarrow> [n]) @ expandir_partes ps)"

definition expandir_race_map :: "string \<Rightarrow> int list" where
  "expandir_race_map race_map0 =
     (let race_map = py_upper (py_strip race_map0) in
      if race_map = ''ALL'' then [1..15]
      else if CHR '','' \<in> set race_map then expandir_partes (py_split (CHR '','') race_map)
      else (case (if CHR ''-'' \<in> set race_map then expandir_rango race_map else None) of
              Some r \<Rightarrow> r
            | None \<Rightarrow> (case py_int race_map of None \<Rightarrow> [] | Some n \<Rightarrow> [n])))"

text \<open>
  What one segment of a race list contributes, in the words of the specification: a two-part
  hyphen segment gives the inclusive range, a plain segment gives its number, and a segment
  that fails integer parsing gives nothing.
\<close>

definition valor_segmento :: "string \<Rightarrow> int list" where
  "valor_segmento seg =
     (if CHR ''-'' \<in> set seg then
        (case py_split (CHR ''-'') seg of
           [x, y] \<Rightarrow>
             (case py_int x of
                None \<Rightarrow> []
              | Some a \<Rightarrow> (case py_int y of None \<Rightarrow> [] | Some b \<Rightarrow> [a..b]))
         | _ \<Rightarrow> [])
      else (case py_int seg of None \<Rightarrow> [] | Some n \<Rightarrow> [n]))"

section \<open>The canonical per-race structure and the reconciliation\<close>

text \<open>
  \<^verbatim>\<open>{num_carrera: {"caballos": int, "apuestas": {codigo: float o None}}}\<close>.
  A dict is an association list in insertion order, read with \<^const>\<open>map_of\<close>; the
  set of its keys is the list of keys without repetitions.
\<close>

record carrera =
  caballos :: int
  apuestas :: "(string \<times> pyfloat option) list"

type_synonym datos = "(int \<times> carrera) list"

definition claves :: "('k \<times> 'v) list \<Rightarrow> 'k list" where
  "claves d = remdups (map fst d)"

text \<open>\<^verbatim>\<open>d[codigo]\<close> for a key that the caller has checked to be present.\<close>

definition valor_de :: "(string \<times> pyfloat option) list \<Rightarrow> string \<Rightarrow> pyfloat option" where
  "valor_de d codigo = (case map_of d codigo of Some v \<Rightarrow> v | None \<Rightarrow> None)"

text \<open>
  The messages of \<^verbatim>\<open>comparar_pdf_y_reporte\<close>, one constructor per f-string, holding the
  values the f-string prints.
\<close>

datatype diferencia =
    CarreraSoloEnReporte int
  | CarreraSoloEnPdf int
  | CaballosDifieren int int int
  | ApuestasSoloEnPdf int "string list"
  | ApuestasSoloEnReporte int "string list"
  | ValorDiferente int string pyfloat pyfloat
  | ValorPdfReporteNull int string pyfloat
  | ValorReportePdfNull int string pyfloat

definition apuestas_sin_comparar_valor :: "string list" where
  "apuestas_sin_comparar_valor = [''GAN'', ''SEG'', ''TER'']"

text \<open>\<^verbatim>\<open>abs(valor_pdf - valor_reporte) > 0.01\<close>\<close>

definition excede_tolerancia :: "pyfloat \<Rightarrow> pyfloat \<Rightarrow> bool" where
  "excede_tolerancia vp vr = fgt (fabs (fsub (como_doble vp) (como_doble vr))) (doble (1 / 100))"

fun comparar_valor :: "int \<Rightarrow> string \<Rightarrow> pyfloat option \<Rightarrow> pyfloat option \<Rightarrow> diferencia list" where
  "comparar_valor n codigo (Some vp) (Some vr) =
     (if excede_tolerancia vp vr then [ValorDiferente n codigo vp vr] else [])"
| "comparar_valor n codigo (Some vp) None = [ValorPdfReporteNull n codigo vp]"
| "comparar_valor n codigo None (Some vr) = [ValorReportePdfNull n codigo vr]"
| "comparar_valor n codigo None None = []"

text \<open>
  The loop \<^verbatim>\<open>for codigo in apuestas_comunes\<close>. Python leaves the order of a set of
  strings open; the model walks the common codes in the order of the PDF's dict.
\<close>

fun comparar_comunes ::
  "int \<Rightarrow> (string \<times> pyfloat option) list \<Rightarrow> (string \<times> pyfloat option) list \<Rightarrow> string list
   \<Rightarrow> diferencia list" where
  "comparar_comunes n ap ar [] = []"
| "comparar_comunes n ap ar (codigo # cs) =
     (if codigo \<in> set apuestas_sin_comparar_valor then comparar_comunes n ap ar cs
      else comparar_valor n codigo (valor_de ap codigo) (valor_de ar codigo)
           @ comparar_comunes n ap ar cs)"

definition comparar_carrera :: "int \<Rightarrow> carrera \<Rightarrow> carrera \<Rightarrow> diferencia list" where
  "comparar_carrera n cp cr =
     (let apuestas_pdf = claves (apuestas cp);
          apuestas_reporte = claves (apuestas cr);
          solo_en_pdf = filter (\<lambda>c. c \<notin> set apuestas_reporte) apuestas_pdf;
          solo_en_reporte = filter (\<lambda>c. c \<notin> set apuestas_pdf) apuestas_reporte;
          apuestas_comunes = filter (\<lambda>c. c \<in> set apuestas_reporte) apuestas_pdf
      in (if caballos cp \<noteq> caballos cr then [CaballosDifieren n (caballos cp) (caballos cr)] else [])
         @ (if solo_en_pdf \<noteq> [] then [ApuestasSoloEnPdf n (sort solo_en_pdf)] else [])
         @ (if solo_en_reporte \<noteq> [] then [ApuestasSoloEnReporte n (sort solo_en_reporte)] else [])
         @ comparar_comunes n (apuestas cp) (apuestas cr) apuestas_comunes)"

text \<open>The loop \<^verbatim>\<open>for num_carrera in sorted(todas_las_carreras)\<close>.\<close>

fun comparar_carreras :: "datos \<Rightarrow> datos \<Rightarrow> int list \<Rightarrow> diferencia list" where
  "comparar_carreras datos_pdf datos_reporte [] = []"
| "comparar_carreras datos_pdf datos_reporte (n # ns) =
     (case map_of datos_pdf n of
        None \<Rightarrow> [CarreraSoloEnReporte n]
      | Some cp \<Rightarrow>
          (case map_of datos_reporte n of
             None \<Rightarrow> [CarreraSoloEnPdf n]
           | Some cr \<Rightarrow> comparar_carrera n cp cr))
     @ comparar_carreras datos_pdf datos_reporte ns"

definition todas_las_carreras :: "datos \<Rightarrow> datos \<Rightarrow> int list" where
  "todas_las_carreras datos_pdf datos_reporte = remdups (map fst datos_pdf @ map fst datos_reporte)"

text \<open>
  The body of \<^verbatim>\<open>comparar_pdf_y_reporte\<close> after the two normalisers have run:
  \<^verbatim>\<open>(coincide_todo, diferencias)\<close>.
\<close>

definition comparar_datos :: "datos \<Rightarrow> datos \<Rightarrow> bool \<times> diferencia list" where
  "comparar_datos datos_pdf datos_reporte =
     (let diferencias =
            comparar_carreras datos_pdf datos_reporte (sort (todas_las_carreras datos_pdf datos_reporte))
      in (length diferencias = 0, diferencias))"


section \<open>Regular expressions as Python's re matches them\<close>

text \<open>
  The patterns of the program use character classes, concatenation, alternation, greedy and
  lazy repetition, groups, \<^verbatim>\<open>^\<close> under MULTILINE and \<^verbatim>\<open>\b\<close>. Python's matcher
  backtracks: at a start position it tries the alternatives in a fixed order and keeps the
  first way to match the whole pattern. \<^verbatim>\<open>emparejar r s (i, g)\<close> lists, in that order,
  every way the pattern \<^verbatim>\<open>r\<close> can match the text \<^verbatim>\<open>s\<close> from position \<^verbatim>\<open>i\<close>:
  the position after the match and the groups set so far (the latest first). The head of
  the list is the match Python reports.
\<close>

datatype rx =
    Cls "char \<Rightarrow> bool"
  | Vacio
  | Sec rx rx
  | Alt rx rx
  | Star rx
  | StarL rx
  | Grupo nat rx
  | Bol
  | Borde

type_synonym grupos = "(nat \<times> nat \<times> nat) list"

text \<open>
  A repetition: each round must consume at least one character (no repeated pattern of the
  program matches the empty string); \<^verbatim>\<open>k\<close> bounds the number of rounds and is taken
  larger than the text. The greedy one prefers another round, the lazy one prefers to stop.
\<close>

fun iterar :: "(nat \<times> grupos \<Rightarrow> (nat \<times> grupos) list) \<Rightarrow> bool \<Rightarrow> nat \<Rightarrow> nat \<times> grupos
    \<Rightarrow> (nat \<times> grupos) list" where
  "iterar f codicioso 0 st = [st]"
| "iterar f codicioso (Suc k) st =
     (if codicioso
      then concat (map (iterar f codicioso k) (filter (\<lambda>st'. fst st < fst st') (f st))) @ [st]
      else st # concat (map (iterar f codicioso k) (filter (\<lambda>st'. fst st < fst st') (f st))))"

definition es_borde :: "string \<Rightarrow> nat \<Rightarrow> bool" where
  "es_borde s i =
     ((0 < i \<and> i \<le> length s \<and> es_palabra (s ! (i - 1))) \<noteq> (i < length s \<and> es_palabra (s ! i)))"

definition es_inicio_linea :: "string \<Rightarrow> nat \<Rightarrow> bool" where
  "es_inicio_linea s i = (i = 0 \<or> (i \<le> length s \<and> s ! (i - 1) = CHR 0x0A))"

fun emparejar :: "rx \<Rightarrow> string \<Rightarrow> nat \<times> grupos \<Rightarrow> (nat \<times> grupos) list" where
  "emparejar (Cls P) s st = (if fst st < length s \<and> P (s ! fst st) then [(Suc (fst st), snd st)] else [])"
| "emparejar Vacio s st = [st]"
| "emparejar (Sec a b) s st = concat (map (emparejar b s) (emparejar a s st))"
| "emparejar (Alt a b) s st = emparejar a s st @ emparejar b s st"
| "emparejar (Star a) s st = iterar (emparejar a s) True (Suc (length s)) st"
| "emparejar (StarL a) s st = iterar (emparejar a s) False (Suc (length s)) st"
| "emparejar (Grupo k a) s st = map (\<lambda>st'. (fst st', (k, fst st, fst st') # snd st')) (emparejar a s st)"
| "emparejar Bol s st = (if es_inicio_linea s (fst st) then [st] else [])"
| "emparejar Borde s st = (if es_borde s (fst st) then [st] else [])"

text \<open>A match: where it starts, where it ends, and its groups.\<close>

record coincidencia =
  inicio :: nat
  final :: nat
  grupos_de :: grupos

definition coincidir_en :: "rx \<Rightarrow> string \<Rightarrow> nat \<Rightarrow> coincidencia option" where
  "coincidir_en r s i =
     (case emparejar r s (i, []) of
        [] \<Rightarrow> None
      | st # _ \<Rightarrow> Some \<lparr>inicio = i, final = fst st, grupos_de = snd st\<rparr>)"

text \<open>
  \<^verbatim>\<open>finditer\<close>: the candidate start positions from left to right; a position inside
  the previous match is skipped. \<^verbatim>\<open>search\<close> is the first match, \<^verbatim>\<open>match\<close> the one
  at position 0.
\<close>

fun finditer_desde :: "rx \<Rightarrow> string \<Rightarrow> nat \<Rightarrow> nat list \<Rightarrow> coincidencia list" where
  "finditer_desde r s tope [] = []"
| "finditer_desde r s tope (i # resto) =
     (if i < tope then finditer_desde r s tope resto
      else (case coincidir_en r s i of
              None \<Rightarrow> finditer_desde r s tope resto
            | Some m \<Rightarrow> m # finditer_desde r s (final m) resto))"

definition re_finditer :: "rx \<Rightarrow> string \<Rightarrow> coincidencia list" where
  "re_finditer r s = finditer_desde r s 0 [0..<Suc (length s)]"

fun buscar_desde :: "rx \<Rightarrow> string \<Rightarrow> nat list \<Rightarrow> coincidencia option" where
  "buscar_desde r s [] = None"
| "buscar_desde r s (i # resto) =
     (case coincidir_en r s i of None \<Rightarrow> buscar_desde r s resto | Some m \<Rightarrow> Some m)"

definition re_search :: "rx \<Rightarrow> string \<Rightarrow> coincidencia option" where
  "re_search r s = buscar_desde r s [0..<Suc (length s)]"

definition re_match :: "rx \<Rightarrow> string \<Rightarrow> coincidencia option" where
  "re_match r s = coincidir_en r s 0"

text \<open>\<^verbatim>\<open>m.group(0)\<close> and \<^verbatim>\<open>m.group(k)\<close>; every group of the program's patterns takes
  part in every match, so the empty text for an unset group is never read.\<close>

definition texto_de :: "string \<Rightarrow> coincidencia \<Rightarrow> string" where
  "texto_de s m = take (final m - inicio m) (drop (inicio m) s)"

definition grupo :: "string \<Rightarrow> coincidencia \<Rightarrow> nat \<Rightarrow> string" where
  "grupo s m k =
     (case map_of (grupos_de m) k of
        None \<Rightarrow> []
      | Some (a, b) \<Rightarrow> take (b - a) (drop a s))"

subsection \<open>Building patterns\<close>

definition Plus :: "rx \<Rightarrow> rx" where
  "Plus r = Sec r (Star r)"

definition PlusL :: "rx \<Rightarrow> rx" where
  "PlusL r = Sec r (StarL r)"

definition Opt :: "rx \<Rightarrow> rx" where
  "Opt r = Alt r Vacio"

fun Secs :: "rx list \<Rightarrow> rx" where
  "Secs [] = Vacio"
| "Secs [r] = r"
| "Secs (r # rs) = Sec r (Secs rs)"

fun Alts :: "rx list \<Rightarrow> rx" where
  "Alts [] = Cls (\<lambda>c. False)"
| "Alts [r] = r"
| "Alts (r # rs) = Alt r (Alts rs)"

definition Car :: "char \<Rightarrow> rx" where
  "Car c = Cls (\<lambda>x. x = c)"

text \<open>A literal character under IGNORECASE.\<close>

definition CarI :: "char \<Rightarrow> rx" where
  "CarI c = Cls (\<lambda>x. py_lower_char x = py_lower_char c)"

definition Lit :: "string \<Rightarrow> rx" where
  "Lit w = Secs (map Car w)"

definition LitI :: "string \<Rightarrow> rx" where
  "LitI w = Secs (map CarI w)"

definition Dig :: rx where
  "Dig = Cls es_digito"

definition Esp :: rx where
  "Esp = Cls py_isspace"

text \<open>The dot without DOTALL.\<close>

definition Punto :: rx where
  "Punto = Cls (\<lambda>c. c \<noteq> CHR 0x0A)"

section \<open>The bet-name exclusion\<close>

text \<open>
  \<^verbatim>\<open>_PATRON_EXCLUIR_PASE_SIN_FINAL\<close>:
  \<^verbatim>\<open>2do\.?\s*pase|3er\.?\s*pase|4to\.?\s*pase|5to\.?\s*pase|ultimo\s*pase\<close>,
  \<^verbatim>\<open>_PATRON_FINAL\<close>: \<^verbatim>\<open>\bfinal\b|final\s*pase\<close> and
  \<^verbatim>\<open>_PATRON_PRIMER_PASE\<close>: \<^verbatim>\<open>\b1er\.?\s*pase\b|\b1re\.?\s*pase\b\<close>, all IGNORECASE.
\<close>

definition pase_de :: "string \<Rightarrow> rx" where
  "pase_de ordinal = Secs [LitI ordinal, Opt (Car (CHR ''.'')), Star Esp, LitI ''pase'']"

definition PATRON_EXCLUIR_PASE_SIN_FINAL :: rx where
  "PATRON_EXCLUIR_PASE_SIN_FINAL =
     Alts [pase_de ''2do'', pase_de ''3er'', pase_de ''4to'', pase_de ''5to'',
           Secs [LitI ''ultimo'', Star Esp, LitI ''pase'']]"

definition PATRON_FINAL :: rx where
  "PATRON_FINAL =
     Alt (Secs [Borde, LitI ''final'', Borde]) (Secs [LitI ''final'', Star Esp, LitI ''pase''])"

definition PATRON_PRIMER_PASE :: rx where
  "PATRON_PRIMER_PASE =
     Alt (Secs [Borde, pase_de ''1er'', Borde]) (Secs [Borde, pase_de ''1re'', Borde])"

definition es_apuesta_excluida :: "string \<Rightarrow> bool" where
  "es_apuesta_excluida nombre =
     (if nombre = [] then False
      else if py_startswith (py_lower (py_strip nombre)) ''doble'' then False
      else if re_search PATRON_EXCLUIR_PASE_SIN_FINAL nombre \<noteq> None then True
      else if re_search PATRON_FINAL nombre \<noteq> None then
        (if re_search PATRON_PRIMER_PASE nombre \<noteq> None then False else True)
      else False)"

section \<open>Horse counts from the pages of the programme\<close>

text \<open>
  The PDF is the list of the texts of its pages (\<^verbatim>\<open>extract_text() or ""\<close>).
  \<^verbatim>\<open>_PATRON_CARRERA_PDF\<close> is
  \<^verbatim>\<open>(\d+)\s*[\<ordfeminine>\<ordmasculine>a]\s*[-]\s*(.+?)\s*[-]\s*\d{1,2}\s*:\s*\d{2}\s*hs\.?\<close>
  with IGNORECASE and DOTALL. The source's dash class also holds the en dash U+2013, which
  is not a character of this model. \<^verbatim>\<open>patron_caballo\<close> is \<^verbatim>\<open>^(\d{2})\s+[A-Z]\<close> with
  MULTILINE and IGNORECASE.
\<close>

definition Cualquiera :: rx where
  "Cualquiera = Cls (\<lambda>c. True)"

definition PATRON_CARRERA_PDF :: rx where
  "PATRON_CARRERA_PDF =
     Secs [Grupo 1 (Plus Dig), Star Esp,
           Cls (\<lambda>c. c = CHR 0xAA \<or> c = CHR 0xBA \<or> py_lower_char c = CHR ''a''),
           Star Esp, Car (CHR ''-''), Star Esp, Grupo 2 (PlusL Cualquiera), Star Esp,
           Car (CHR ''-''), Star Esp, Dig, Opt Dig, Star Esp, Car (CHR '':''), Star Esp,
           Dig, Dig, Star Esp, LitI ''hs'', Opt (Car (CHR ''.''))]"

definition patron_caballo :: rx where
  "patron_caballo =
     Secs [Bol, Grupo 1 (Sec Dig Dig), Plus Esp,
           Cls (\<lambda>c. es_mayuscula_ascii c \<or> es_minuscula_ascii c)]"

text \<open>\<^verbatim>\<open>int(m.group(k))\<close> for a group that is \<^verbatim>\<open>\d+\<close>: the value of its digits.\<close>

definition int_grupo :: "string \<Rightarrow> coincidencia \<Rightarrow> nat \<Rightarrow> int" where
  "int_grupo s m k = int (nat_de_digitos (grupo s m k))"

definition numeros_caballos :: "string \<Rightarrow> int list" where
  "numeros_caballos texto =
     filter (\<lambda>num. 1 \<le> num \<and> num \<le> 24)
       (map (\<lambda>m. int_grupo texto m 1) (re_finditer patron_caballo texto))"

definition cantidad_caballos :: "string \<Rightarrow> int" where
  "cantidad_caballos texto =
     (if numeros_caballos texto = [] then 0 else Max (set (numeros_caballos texto)))"

text \<open>The loop over the pages; \<^verbatim>\<open>resultado\<close> is the dict built so far.\<close>

fun caballos_paginas :: "string list \<Rightarrow> (int \<times> int) list \<Rightarrow> (int \<times> int) list" where
  "caballos_paginas [] resultado = resultado"
| "caballos_paginas (texto # paginas) resultado =
     (case re_search PATRON_CARRERA_PDF texto of
        None \<Rightarrow> caballos_paginas paginas resultado
      | Some m_carrera \<Rightarrow>
          caballos_paginas paginas
            (AList.update (int_grupo texto m_carrera 1) (cantidad_caballos texto) resultado))"

definition obtener_caballos_por_carrera :: "string list \<Rightarrow> (int \<times> int) list" where
  "obtener_caballos_por_carrera paginas = caballos_paginas paginas []"

section \<open>The configuration report\<close>

text \<open>
  \<^verbatim>\<open>patron_carrera\<close>: \<^verbatim>\<open>^\s*(\d+)\s+([A-Z\s]+?)(?:\s+1/9)+\<close>,
  \<^verbatim>\<open>patron_scr\<close>: \<^verbatim>\<open>\bSCR\b\<close> with IGNORECASE,
  \<^verbatim>\<open>patron_apuestas_linea\<close>: \<^verbatim>\<open>\b(GAN|SEG|TER|EXA|TRI|IMP|DOB|TPL|QTN|QTP|CAD|CUA)\b\<close>,
  the test for a new race \<^verbatim>\<open>^\s*\d+\s+\<close>, and
  \<^verbatim>\<open>patron_rsm\<close>: \<^verbatim>\<open>^\s*\d+\s+([^\s]+(?:[-\s,][^\s]+)*)\s+---\s+([A-Z]+)\s+TS\s+([\d.,]+)\<close>.
\<close>

definition Mayus :: rx where
  "Mayus = Cls es_mayuscula_ascii"

definition NoEsp :: rx where
  "NoEsp = Cls (\<lambda>c. \<not> py_isspace c)"

definition DigPuntoComa :: rx where
  "DigPuntoComa = Cls (\<lambda>c. es_digito c \<or> c = CHR ''.'' \<or> c = CHR '','')"

definition patron_carrera :: rx where
  "patron_carrera =
     Secs [Bol, Star Esp, Grupo 1 (Plus Dig), Plus Esp,
           Grupo 2 (PlusL (Cls (\<lambda>c. es_mayuscula_ascii c \<or> py_isspace c))),
           Plus (Sec (Plus Esp) (Lit ''1/9''))]"

definition patron_caballos :: rx where
  "patron_caballos = Lit ''1/9''"

definition patron_scr :: rx where
  "patron_scr = Secs [Borde, LitI ''SCR'', Borde]"

definition patron_apuestas_linea :: rx where
  "patron_apuestas_linea =
     Secs [Borde,
           Grupo 1 (Alts (map Lit [''GAN'', ''SEG'', ''TER'', ''EXA'', ''TRI'', ''IMP'', ''DOB'',
                                   ''TPL'', ''QTN'', ''QTP'', ''CAD'', ''CUA''])),
           Borde]"

definition patron_otra_carrera :: rx where
  "patron_otra_carrera = Secs [Bol, Star Esp, Plus Dig, Plus Esp]"

definition patron_rsm :: rx where
  "patron_rsm =
     Secs [Bol, Star Esp, Plus Dig, Plus Esp,
           Grupo 1 (Sec (Plus NoEsp)
                     (Star (Sec (Cls (\<lambda>c. c = CHR ''-'' \<or> py_isspace c \<or> c = CHR '','')) (Plus NoEsp)))),
           Plus Esp, Lit ''---'', Plus Esp, Grupo 2 (Plus Mayus), Plus Esp, Lit ''TS'', Plus Esp,
           Grupo 3 (Plus DigPuntoComa)]"

text \<open>\<^verbatim>\<open>findall\<close> of a pattern with one group: the texts of the group.\<close>

definition findall_grupo :: "rx \<Rightarrow> string \<Rightarrow> string list" where
  "findall_grupo r s = map (\<lambda>m. grupo s m 1) (re_finditer r s)"

text \<open>
  A Python set of codes is a list without repetitions; \<^verbatim>\<open>a.update(b)\<close> is
  \<^verbatim>\<open>unir a b\<close>.
\<close>

definition unir :: "'a list \<Rightarrow> 'a list \<Rightarrow> 'a list" where
  "unir a b = a @ filter (\<lambda>x. x \<notin> set a) (remdups b)"

text \<open>
  The inner loop over the lines after a race line (the caller passes at most
  \<^verbatim>\<open>max_lineas_siguientes\<close> of them): the codes of the continuation lines.
\<close>

fun lineas_siguientes :: "string list \<Rightarrow> string list" where
  "lineas_siguientes [] = []"
| "lineas_siguientes (linea_siguiente # resto) =
     (if py_strip linea_siguiente = [] then []
      else if \<not> (py_startswith linea_siguiente '' '' \<or> py_startswith linea_siguiente [CHR 0x09]) then []
      else if re_match patron_otra_carrera linea_siguiente \<noteq> None then []
      else findall_grupo patron_apuestas_linea linea_siguiente @ lineas_siguientes resto)"

definition max_lineas_siguientes :: nat where
  "max_lineas_siguientes = 15"

type_synonym apuestas_por_carrera = "(int \<times> string list) list"
type_synonym caballos_por_carrera = "(int \<times> int) list"
type_synonym valores_por_carrera = "(int \<times> (string \<times> pyfloat) list) list"

definition obtener :: "('k \<times> 'v list) list \<Rightarrow> 'k \<Rightarrow> 'v list" where
  "obtener d k = (case map_of d k of None \<Rightarrow> [] | Some v \<Rightarrow> v)"

text \<open>Step 1 of \<^verbatim>\<open>_normalizar_reporte\<close>: the loop \<^verbatim>\<open>while i < len(lineas)\<close>.\<close>

fun pase_disponibilidad ::
  "string list \<Rightarrow> apuestas_por_carrera \<times> caballos_por_carrera
   \<Rightarrow> apuestas_por_carrera \<times> caballos_por_carrera" where
  "pase_disponibilidad [] st = st"
| "pase_disponibilidad (linea # resto) st =
     (case re_match patron_carrera linea of
        None \<Rightarrow> pase_disponibilidad resto st
      | Some m \<Rightarrow>
          (let num_carrera = int_grupo linea m 1;
               cantidad = int (length (re_finditer patron_caballos linea))
                          + int (length (re_finditer patron_scr linea));
               apuestas_en_linea = findall_grupo patron_apuestas_linea linea;
               adicionales = lineas_siguientes (take max_lineas_siguientes resto)
           in pase_disponibilidad resto
                (AList.update num_carrera
                   (unir (unir (obtener (fst st) num_carrera) apuestas_en_linea) adicionales) (fst st),
                 AList.update num_carrera cantidad (snd st))))"

text \<open>The text of the RSM TABLE section, or None when the marker is absent.\<close>

definition seccion_rsm :: "string \<Rightarrow> string option" where
  "seccion_rsm contenido =
     (case py_find ''RSM TABLE'' contenido of
        None \<Rightarrow> None
      | Some inicio_rsm \<Rightarrow>
          (let seccion = drop inicio_rsm contenido;
               fin_rsm_1 = py_find [CHR 0x0A, CHR 0x0A, CHR 0x0A] seccion;
               fin_rsm_2 = py_find ''TIM BETTING'' seccion
           in Some (case fin_rsm_1 of
                      Some a \<Rightarrow> (case fin_rsm_2 of Some b \<Rightarrow> take (min a b) seccion | None \<Rightarrow> take a seccion)
                    | None \<Rightarrow> (case fin_rsm_2 of Some b \<Rightarrow> take b seccion | None \<Rightarrow> seccion))))"

definition mapeo_rsm :: "(string \<times> string option) list" where
  "mapeo_rsm =
     [(''WPS'', None), (''EXA'', Some ''EXA''), (''TRI'', Some ''TRI''), (''IMP'', Some ''IMP''),
      (''DOB'', Some ''DOB''), (''TPL'', Some ''TPL''), (''QTN'', Some ''QTN''),
      (''QTP'', Some ''QTP''), (''CAD'', Some ''CAD''), (''CUA'', Some ''CUA'')]"

text \<open>\<^verbatim>\<open>valores_por_carrera[carrera][codigo_apuesta] = valor_float\<close>, creating the inner
  dict when the race is new.\<close>

definition asignar :: "int \<Rightarrow> string \<Rightarrow> pyfloat \<Rightarrow> valores_por_carrera \<Rightarrow> valores_por_carrera" where
  "asignar carrera codigo v valores =
     AList.update carrera (AList.update codigo v (obtener valores carrera)) valores"

text \<open>The race list of one row of the table, as \<^verbatim>\<open>_normalizar_reporte\<close> expands it.\<close>

definition carreras_de_fila :: "int list \<Rightarrow> string \<Rightarrow> int list" where
  "carreras_de_fila carreras_reales_reporte race_map =
     (if py_upper race_map = ''ALL''
      then (if carreras_reales_reporte \<noteq> [] then carreras_reales_reporte
            else expandir_race_map race_map)
      else expandir_race_map race_map)"

text \<open>The loop \<^verbatim>\<open>for carrera in carreras\<close>.\<close>

fun asignar_carreras ::
  "int list \<Rightarrow> string \<Rightarrow> pyfloat \<Rightarrow> int list \<Rightarrow> valores_por_carrera \<Rightarrow> valores_por_carrera" where
  "asignar_carreras carreras_reales_reporte codigo v [] valores = valores"
| "asignar_carreras carreras_reales_reporte codigo v (carrera # cs) valores =
     (if carreras_reales_reporte \<noteq> [] \<and> carrera \<notin> set carreras_reales_reporte
      then asignar_carreras carreras_reales_reporte codigo v cs valores
      else asignar_carreras carreras_reales_reporte codigo v cs (asignar carrera codigo v valores))"

text \<open>One row \<^verbatim>\<open>(race_map, tipo_rsm, valor_str)\<close> of the table.\<close>

definition fila_rsm ::
  "int list \<Rightarrow> string \<Rightarrow> string \<Rightarrow> string \<Rightarrow> valores_por_carrera \<Rightarrow> valores_por_carrera" where
  "fila_rsm carreras_reales_reporte race_map tipo_rsm valor_str valores =
     (case parsear_monto_str valor_str of
        None \<Rightarrow> valores
      | Some valor_float \<Rightarrow>
          (case map_of mapeo_rsm tipo_rsm of
             Some (Some codigo_apuesta) \<Rightarrow>
               asignar_carreras carreras_reales_reporte codigo_apuesta valor_float
                 (carreras_de_fila carreras_reales_reporte race_map) valores
           | _ \<Rightarrow> valores))"

text \<open>The loop \<^verbatim>\<open>for m in patron_rsm.finditer(seccion_rsm)\<close>.\<close>

fun filas_rsm ::
  "int list \<Rightarrow> string \<Rightarrow> coincidencia list \<Rightarrow> valores_por_carrera \<Rightarrow> valores_por_carrera" where
  "filas_rsm carreras_reales_reporte seccion [] valores = valores"
| "filas_rsm carreras_reales_reporte seccion (m # ms) valores =
     filas_rsm carreras_reales_reporte seccion ms
       (fila_rsm carreras_reales_reporte (py_strip (grupo seccion m 1)) (py_strip (grupo seccion m 2))
          (py_strip (grupo seccion m 3)) valores)"

text \<open>Step 2: the values of the RSM TABLE, given the horse counts of step 1.\<close>

definition pase_rsm :: "string \<Rightarrow> caballos_por_carrera \<Rightarrow> valores_por_carrera" where
  "pase_rsm contenido caballos_pc =
     (case seccion_rsm contenido of
        None \<Rightarrow> []
      | Some seccion \<Rightarrow>
          filas_rsm (sort (map fst caballos_pc)) seccion (re_finditer patron_rsm seccion) [])"

text \<open>
  Step 3: \<^verbatim>\<open>valores_default\<close>, read from the 500 characters that start at
  \<^verbatim>\<open>CARD DEFAULT MINIMUMS - ARS\<close> with the pattern
  \<^verbatim>\<open>(GAN|SEG|TER|EXA|IMP|TRI|DOB|TPL|QTN|QTP|CAD|CUA)\s+([\d.,]+)\<close>.
\<close>

definition patron_default :: rx where
  "patron_default =
     Secs [Grupo 1 (Alts (map Lit [''GAN'', ''SEG'', ''TER'', ''EXA'', ''IMP'', ''TRI'', ''DOB'',
                                   ''TPL'', ''QTN'', ''QTP'', ''CAD'', ''CUA''])),
           Plus Esp, Grupo 2 (Plus DigPuntoComa)]"

fun filas_default :: "string \<Rightarrow> coincidencia list \<Rightarrow> (string \<times> pyfloat) list \<Rightarrow> (string \<times> pyfloat) list" where
  "filas_default seccion [] valores_default = valores_default"
| "filas_default seccion (m # ms) valores_default =
     filas_default seccion ms
       (case parsear_monto_str (grupo seccion m 2) of
          None \<Rightarrow> valores_default
        | Some v \<Rightarrow> AList.update (grupo seccion m 1) v valores_default)"

definition leer_valores_default :: "string \<Rightarrow> (string \<times> pyfloat) list" where
  "leer_valores_default contenido =
     (case py_find ''CARD DEFAULT MINIMUMS - ARS'' contenido of
        None \<Rightarrow> []
      | Some inicio_defaults \<Rightarrow>
          (let seccion_defaults = take 500 (drop inicio_defaults contenido)
           in filas_default seccion_defaults (re_finditer patron_default seccion_defaults) []))"

text \<open>
  Step 4: the final structure. \<^verbatim>\<open>valores_default\<close> is in scope there, as in the source,
  and is not read.
\<close>

definition apuestas_de_carrera :: "string list \<Rightarrow> (string \<times> pyfloat) list \<Rightarrow> (string \<times> pyfloat option) list" where
  "apuestas_de_carrera apuestas_carrera valores_carrera =
     map (\<lambda>codigo. (codigo, map_of valores_carrera codigo)) apuestas_carrera"

definition combinar ::
  "apuestas_por_carrera \<Rightarrow> caballos_por_carrera \<Rightarrow> valores_por_carrera \<Rightarrow> (string \<times> pyfloat) list
   \<Rightarrow> datos" where
  "combinar apuestas_pc caballos_pc valores_pc valores_default =
     map (\<lambda>num_carrera.
            (num_carrera,
             \<lparr>caballos = (case map_of caballos_pc num_carrera of None \<Rightarrow> 0 | Some c \<Rightarrow> c),
              apuestas = apuestas_de_carrera (obtener apuestas_pc num_carrera)
                           (obtener valores_pc num_carrera)\<rparr>))
         (remdups (map fst caballos_pc @ map fst apuestas_pc))"

text \<open>\<^verbatim>\<open>_normalizar_reporte\<close> on the content of the report file.\<close>

definition disponibilidad :: "string \<Rightarrow> apuestas_por_carrera \<times> caballos_por_carrera" where
  "disponibilidad contenido = pase_disponibilidad (py_split (CHR 0x0A) contenido) ([], [])"

definition normalizar_reporte :: "string \<Rightarrow> datos" where
  "normalizar_reporte contenido =
     (case disponibilidad contenido of
        (apuestas_pc, caballos_pc) \<Rightarrow>
          combinar apuestas_pc caballos_pc (pase_rsm contenido caballos_pc)
            (leer_valores_default contenido))"

text \<open>
  The codes that step 1 collects for race \<^verbatim>\<open>n\<close>, said directly: the union, over the race
  lines that carry the number \<^verbatim>\<open>n\<close>, of the codes on the line and on its continuation
  lines.
\<close>

fun codigos_disponibles :: "string list \<Rightarrow> int \<Rightarrow> string set" where
  "codigos_disponibles [] n = {}"
| "codigos_disponibles (linea # resto) n =
     (case re_match patron_carrera linea of
        None \<Rightarrow> {}
      | Some m \<Rightarrow>
          if int_grupo linea m 1 = n
          then set (findall_grupo patron_apuestas_linea linea)
               \<union> set (lineas_siguientes (take max_lineas_siguientes resto))
          else {})
     \<union> codigos_disponibles resto n"

section \<open>The Palermo variant\<close>

subsection \<open>The report: only the RSM TABLE\<close>

text \<open>The first loop of \<^verbatim>\<open>_normalizar_reporte_palermo\<close>: the largest race number named
  by a row that is not ALL.\<close>

fun max_carrera_de :: "string \<Rightarrow> coincidencia list \<Rightarrow> int \<Rightarrow> int" where
  "max_carrera_de seccion [] max_carrera = max_carrera"
| "max_carrera_de seccion (m # ms) max_carrera =
     (let race_map = py_strip (grupo seccion m 1) in
      if py_upper race_map = ''ALL'' then max_carrera_de seccion ms max_carrera
      else if expandir_race_map race_map = [] then max_carrera_de seccion ms max_carrera
      else max_carrera_de seccion ms (max max_carrera (Max (set (expandir_race_map race_map)))))"

definition mapeo_rsm_palermo :: "(string \<times> string) list" where
  "mapeo_rsm_palermo =
     [(''EXA'', ''EXA''), (''TRI'', ''TRI''), (''IMP'', ''IMP''), (''DOB'', ''DOB''),
      (''TPL'', ''TPL''), (''QTN'', ''QTN''), (''QTP'', ''QTP''), (''CAD'', ''CAD''),
      (''CUA'', ''CUA'')]"

text \<open>The second loop: here a row is applied to every race of its list.\<close>

fun filas_rsm_palermo ::
  "int \<Rightarrow> string \<Rightarrow> coincidencia list \<Rightarrow> valores_por_carrera \<Rightarrow> valores_por_carrera" where
  "filas_rsm_palermo max_carrera seccion [] valores = valores"
| "filas_rsm_palermo max_carrera seccion (m # ms) valores =
     filas_rsm_palermo max_carrera seccion ms
       (let race_map = py_strip (grupo seccion m 1);
            tipo_rsm = py_strip (grupo seccion m 2);
            valor_str = py_strip (grupo seccion m 3)
        in case map_of mapeo_rsm_palermo tipo_rsm of
             None \<Rightarrow> valores
           | Some codigo_apuesta \<Rightarrow>
               (case parsear_monto_str valor_str of
                  None \<Rightarrow> valores
                | Some valor_float \<Rightarrow>
                    asignar_carreras [] codigo_apuesta valor_float
                      (if py_upper race_map = ''ALL'' then [1..max_carrera]
                       else expandir_race_map race_map)
                      valores))"

definition normalizar_reporte_palermo :: "string \<Rightarrow> valores_por_carrera" where
  "normalizar_reporte_palermo contenido =
     (case seccion_rsm contenido of
        None \<Rightarrow> []
      | Some seccion \<Rightarrow>
          (let filas = re_finditer patron_rsm seccion;
               max_carrera = max_carrera_de seccion filas 0
           in filas_rsm_palermo (if max_carrera = 0 then 15 else max_carrera) seccion filas []))"

subsection \<open>The PDF of Palermo\<close>

text \<open>\<^verbatim>\<open>texto.replace("  ", " ")\<close>\<close>

fun reemplazar_dobles :: "string \<Rightarrow> string" where
  "reemplazar_dobles (c # d # cs) =
     (if c = CHR '' '' \<and> d = CHR '' '' then CHR '' '' # reemplazar_dobles cs
      else c # reemplazar_dobles (d # cs))"
| "reemplazar_dobles cs = cs"

definition mapear_nombre_apuesta_palermo :: "string \<Rightarrow> string option" where
  "mapear_nombre_apuesta_palermo descripcion =
     (if descripcion = [] then None
      else (let texto = reemplazar_dobles (py_lower (py_strip descripcion)) in
            if contiene ''cuatrifecta'' texto then Some ''CUA''
            else if contiene ''trifecta'' texto then Some ''TRI''
            else if contiene ''doble extra'' texto then Some ''DOB''
            else if contiene ''doble'' texto then Some ''DOB''
            else if contiene ''5 y 6'' texto \<or> contiene ''5y6'' texto \<or> contiene ''5 & 6'' texto
              then Some ''CAD''
            else if contiene ''pick cuatro'' texto \<or> contiene ''pick 4'' texto then Some ''QTN''
            else if contiene ''pick cinco'' texto \<or> contiene ''pick 5'' texto then Some ''QTP''
            else if contiene ''exacta'' texto then Some ''EXA''
            else if contiene ''triplo'' texto then Some ''TPL''
            else if contiene ''imperfecta'' texto then Some ''IMP''
            else None))"

text \<open>
  \<^verbatim>\<open>patron_fecha\<close>: \<^verbatim>\<open>\b\d{1,2}/\d{1,2}/\d{2,4}\b\<close>,
  \<^verbatim>\<open>patron_fila\<close>: \<^verbatim>\<open>(.+?)\(\s*[\$\s]*([\d.,]+)(?:\.-)?\s*\)\s+(.+)\<close>,
  the range \<^verbatim>\<open>DESDE\s+LA\s+(\d+)\s*[\<ordfeminine>\<ordmasculine>]?\s+HASTA\s+LA\s+(\d+)\s*[\<ordfeminine>\<ordmasculine>]?\<close>
  and the numbers \<^verbatim>\<open>(\d+)\s*[\<ordfeminine>\<ordmasculine>]?\<close>.
\<close>

definition patron_fecha :: rx where
  "patron_fecha =
     Secs [Borde, Dig, Opt Dig, Car (CHR ''/''), Dig, Opt Dig, Car (CHR ''/''),
           Dig, Dig, Opt (Sec Dig (Opt Dig)), Borde]"

definition patron_fila :: rx where
  "patron_fila =
     Secs [Grupo 1 (PlusL Punto), Car (CHR ''(''), Star Esp,
           Star (Cls (\<lambda>c. c = CHR ''$'' \<or> py_isspace c)),
           Grupo 2 (Plus DigPuntoComa), Opt (Lit ''.-''), Star Esp, Car (CHR '')''), Plus Esp,
           Grupo 3 (Plus Punto)]"

definition Ordinal :: rx where
  "Ordinal = Cls (\<lambda>c. c = CHR 0xAA \<or> c = CHR 0xBA)"

definition patron_rango :: rx where
  "patron_rango =
     Secs [Lit ''DESDE'', Plus Esp, Lit ''LA'', Plus Esp, Grupo 1 (Plus Dig), Star Esp, Opt Ordinal,
           Plus Esp, Lit ''HASTA'', Plus Esp, Lit ''LA'', Plus Esp, Grupo 2 (Plus Dig), Star Esp,
           Opt Ordinal]"

definition patron_numeros :: rx where
  "patron_numeros = Secs [Grupo 1 (Plus Dig), Star Esp, Opt Ordinal]"

definition numeros_de :: "string \<Rightarrow> int list" where
  "numeros_de carreras_str =
     map (\<lambda>m. int_grupo carreras_str m 1) (re_finditer patron_numeros carreras_str)"

definition extraer_carreras_palermo :: "string \<Rightarrow> int list" where
  "extraer_carreras_palermo carreras_str =
     (case re_search patron_rango (py_upper carreras_str) of
        None \<Rightarrow> numeros_de carreras_str
      | Some m_rango \<Rightarrow>
          if int_grupo (py_upper carreras_str) m_rango 1 \<le> int_grupo (py_upper carreras_str) m_rango 2
          then [int_grupo (py_upper carreras_str) m_rango 1 .. int_grupo (py_upper carreras_str) m_rango 2]
          else numeros_de carreras_str)"

text \<open>
  The three results of \<^verbatim>\<open>_leer_palermo_desde_pdf\<close>. An entry of
  \<^verbatim>\<open>resumen_por_fecha\<close> counts the lines that contributed a code on a date.
\<close>

record resumen =
  conteo_lineas :: int
  valor :: pyfloat
  carreras :: "int list"

record datos_palermo =
  fechas :: "string list"
  apuestas_por_fecha :: "(string \<times> valores_por_carrera) list"
  resumen_por_fecha :: "(string \<times> (string \<times> resumen) list) list"

text \<open>The loop \<^verbatim>\<open>for f in patron_fecha.findall(linea_stripped)\<close>.\<close>

fun anotar_fechas :: "string list \<Rightarrow> string list \<times> string option \<Rightarrow> string list \<times> string option" where
  "anotar_fechas [] st = st"
| "anotar_fechas (f # fs) st =
     anotar_fechas fs (if f \<in> set (fst st) then fst st else fst st @ [f], Some f)"

definition fechas_de_linea :: "string \<Rightarrow> string list" where
  "fechas_de_linea linea_stripped = map (texto_de linea_stripped) (re_finditer patron_fecha linea_stripped)"

text \<open>The loop \<^verbatim>\<open>for carrera in carreras\<close> on the races of one row.\<close>

fun registrar_carreras ::
  "string \<Rightarrow> pyfloat \<Rightarrow> int list \<Rightarrow> valores_por_carrera \<times> int list \<Rightarrow> valores_por_carrera \<times> int list" where
  "registrar_carreras codigo v [] st = st"
| "registrar_carreras codigo v (carrera # cs) st =
     registrar_carreras codigo v cs
       (asignar carrera codigo v (fst st),
        if carrera \<in> set (snd st) then snd st else snd st @ [carrera])"

text \<open>What an accepted row writes into the two dicts, under the current date.\<close>

definition registrar :: "string \<Rightarrow> string \<Rightarrow> pyfloat \<Rightarrow> int list \<Rightarrow> datos_palermo \<Rightarrow> datos_palermo" where
  "registrar fecha_actual codigo_apuesta v cs d =
     (let apuestas_fecha = obtener (apuestas_por_fecha d) fecha_actual;
          resumen_fecha = obtener (resumen_por_fecha d) fecha_actual;
          info = (case map_of resumen_fecha codigo_apuesta of
                    None \<Rightarrow> \<lparr>conteo_lineas = 0, valor = v, carreras = []\<rparr>
                  | Some i \<Rightarrow> i);
          res = registrar_carreras codigo_apuesta v cs (apuestas_fecha, carreras info)
      in d\<lparr>apuestas_por_fecha := AList.update fecha_actual (fst res) (apuestas_por_fecha d),
           resumen_por_fecha :=
             AList.update fecha_actual
               (AList.update codigo_apuesta
                  \<lparr>conteo_lineas = conteo_lineas info + 1, valor = v, carreras = snd res\<rparr>
                  resumen_fecha)
               (resumen_por_fecha d)\<rparr>)"

text \<open>
  The body of the loop over the lines of a page. The state is \<^verbatim>\<open>fecha_actual\<close> and the
  three results built so far; each \<^verbatim>\<open>continue\<close> returns the state as it is then.
\<close>

definition fila_de_linea :: "string \<Rightarrow> string \<Rightarrow> datos_palermo \<Rightarrow> datos_palermo" where
  "fila_de_linea fecha_actual linea_stripped d =
     (case re_match patron_fila linea_stripped of
        None \<Rightarrow> d
      | Some m \<Rightarrow>
          (case mapear_nombre_apuesta_palermo (py_strip (grupo linea_stripped m 1)) of
             None \<Rightarrow> d
           | Some codigo_apuesta \<Rightarrow>
               (case parsear_monto_str (py_strip (grupo linea_stripped m 2)) of
                  None \<Rightarrow> d
                | Some v \<Rightarrow>
                    (let cs = extraer_carreras_palermo (py_strip (grupo linea_stripped m 3)) in
                     if cs = [] then d else registrar fecha_actual codigo_apuesta v cs d))))"

definition procesar_linea :: "string \<Rightarrow> string option \<times> datos_palermo \<Rightarrow> string option \<times> datos_palermo" where
  "procesar_linea linea st =
     (let linea_stripped = py_strip linea in
      if linea_stripped = [] then st
      else
        (let fs = anotar_fechas (fechas_de_linea linea_stripped) (fechas (snd st), fst st);
             d = (snd st)\<lparr>fechas := fst fs\<rparr>;
             fecha_actual = snd fs
         in if CHR ''('' \<notin> set linea_stripped \<or> CHR '')'' \<notin> set linea_stripped then (fecha_actual, d)
            else (case fecha_actual of
                    None \<Rightarrow> (fecha_actual, d)
                  | Some f \<Rightarrow> (fecha_actual, fila_de_linea f linea_stripped d))))"

fun procesar_lineas :: "string list \<Rightarrow> string option \<times> datos_palermo \<Rightarrow> string option \<times> datos_palermo" where
  "procesar_lineas [] st = st"
| "procesar_lineas (linea # resto) st = procesar_lineas resto (procesar_linea linea st)"

text \<open>One page: \<^verbatim>\<open>fecha_actual = None\<close>, then its lines.\<close>

definition procesar_pagina :: "string \<Rightarrow> datos_palermo \<Rightarrow> datos_palermo" where
  "procesar_pagina texto d = snd (procesar_lineas (py_split (CHR 0x0A) texto) (None, d))"

fun procesar_paginas :: "string list \<Rightarrow> datos_palermo \<Rightarrow> datos_palermo" where
  "procesar_paginas [] d = d"
| "procesar_paginas (texto # paginas) d = procesar_paginas paginas (procesar_pagina texto d)"

definition leer_palermo_desde_pdf :: "string list \<Rightarrow> datos_palermo" where
  "leer_palermo_desde_pdf paginas =
     procesar_paginas paginas \<lparr>fechas = [], apuestas_por_fecha = [], resumen_por_fecha = []\<rparr>"

subsection \<open>The reconciliation of Palermo\<close>

text \<open>Without a date: the dicts of all dates, merged with \<^verbatim>\<open>dict.update\<close>.\<close>

fun actualizar :: "('k \<times> 'v) list \<Rightarrow> ('k \<times> 'v) list \<Rightarrow> ('k \<times> 'v) list" where
  "actualizar d [] = d"
| "actualizar d ((k, v) # kvs) = actualizar (AList.update k v d) kvs"

fun combinar_carreras :: "valores_por_carrera \<Rightarrow> valores_por_carrera \<Rightarrow> valores_por_carrera" where
  "combinar_carreras apuestas_pdf [] = apuestas_pdf"
| "combinar_carreras apuestas_pdf ((carrera, aps) # resto) =
     combinar_carreras (AList.update carrera (actualizar (obtener apuestas_pdf carrera) aps) apuestas_pdf) resto"

fun combinar_fechas :: "(string \<times> valores_por_carrera) list \<Rightarrow> valores_por_carrera \<Rightarrow> valores_por_carrera" where
  "combinar_fechas [] apuestas_pdf = apuestas_pdf"
| "combinar_fechas ((f, apuestas_carreras) # resto) apuestas_pdf =
     combinar_fechas resto (combinar_carreras apuestas_pdf apuestas_carreras)"

definition codigos_all_si_unica :: "string list" where
  "codigos_all_si_unica = [''EXA'', ''TRI'']"

text \<open>
  The loop \<^verbatim>\<open>for carrera in datos_reporte.keys()\<close> of the completion rule: the race
  gets an empty dict when the PDF has none for it, and the code only where it is absent.
\<close>

fun completar_carreras :: "string \<Rightarrow> pyfloat \<Rightarrow> int list \<Rightarrow> valores_por_carrera \<Rightarrow> valores_por_carrera" where
  "completar_carreras codigo v [] apuestas_pdf = apuestas_pdf"
| "completar_carreras codigo v (carrera # cs) apuestas_pdf =
     completar_carreras codigo v cs
       (if codigo \<in> fst ` set (obtener apuestas_pdf carrera)
        then (if carrera \<in> fst ` set apuestas_pdf then apuestas_pdf
              else AList.update carrera [] apuestas_pdf)
        else asignar carrera codigo v apuestas_pdf)"

text \<open>The loop \<^verbatim>\<open>for codigo in codigos_all_si_unica\<close>.\<close>

fun completar_codigos ::
  "(string \<times> resumen) list \<Rightarrow> int list \<Rightarrow> string list \<Rightarrow> valores_por_carrera \<Rightarrow> valores_por_carrera" where
  "completar_codigos resumen_fecha carreras_reporte [] apuestas_pdf = apuestas_pdf"
| "completar_codigos resumen_fecha carreras_reporte (codigo # cs) apuestas_pdf =
     completar_codigos resumen_fecha carreras_reporte cs
       (case map_of resumen_fecha codigo of
          None \<Rightarrow> apuestas_pdf
        | Some info \<Rightarrow>
            if conteo_lineas info \<noteq> 1 then apuestas_pdf
            else completar_carreras codigo (valor info) carreras_reporte apuestas_pdf)"

text \<open>\<^verbatim>\<open>apuestas_pdf\<close> as the comparison loop of \<^verbatim>\<open>comparar_palermo\<close> reads it.\<close>

definition apuestas_pdf_palermo ::
  "string option \<Rightarrow> datos_palermo \<Rightarrow> valores_por_carrera \<Rightarrow> valores_por_carrera" where
  "apuestas_pdf_palermo fecha_objetivo datos_pdf datos_reporte =
     (case fecha_objetivo of
        None \<Rightarrow> combinar_fechas (apuestas_por_fecha datos_pdf) []
      | Some f \<Rightarrow>
          completar_codigos (obtener (resumen_por_fecha datos_pdf) f) (map fst datos_reporte)
            codigos_all_si_unica (obtener (apuestas_por_fecha datos_pdf) f))"

datatype diferencia_palermo =
    SinApuestasEnPdf int
  | NoEstaEnReporte int
  | SoloEnPdfPalermo int "string list"
  | SoloEnReportePalermo int "string list"
  | SinMontoEnPdf int string pyfloat
  | NullEnReporte int string pyfloat
  | MontoDifiere int string pyfloat pyfloat

fun comparar_montos :: "int \<Rightarrow> string \<Rightarrow> pyfloat option \<Rightarrow> pyfloat option \<Rightarrow> diferencia_palermo list" where
  "comparar_montos n codigo None None = []"
| "comparar_montos n codigo None (Some vr) = [SinMontoEnPdf n codigo vr]"
| "comparar_montos n codigo (Some vp) None = [NullEnReporte n codigo vp]"
| "comparar_montos n codigo (Some vp) (Some vr) =
     (if excede_tolerancia vp vr then [MontoDifiere n codigo vp vr] else [])"

definition comparar_carrera_palermo ::
  "int \<Rightarrow> (string \<times> pyfloat) list \<Rightarrow> (string \<times> pyfloat) list \<Rightarrow> diferencia_palermo list" where
  "comparar_carrera_palermo n apuestas_carrera_pdf apuestas_carrera_rep =
     (let codigos_pdf = claves apuestas_carrera_pdf;
          codigos_rep = claves apuestas_carrera_rep;
          solo_en_pdf = filter (\<lambda>c. c \<notin> set codigos_rep) codigos_pdf;
          solo_en_reporte = filter (\<lambda>c. c \<notin> set codigos_pdf) codigos_rep;
          codigos_comunes = filter (\<lambda>c. c \<in> set codigos_rep) codigos_pdf
      in (if solo_en_pdf \<noteq> [] then [SoloEnPdfPalermo n (sort solo_en_pdf)] else [])
         @ (if solo_en_reporte \<noteq> [] then [SoloEnReportePalermo n (sort solo_en_reporte)] else [])
         @ concat (map (\<lambda>codigo. comparar_montos n codigo (map_of apuestas_carrera_pdf codigo)
                                   (map_of apuestas_carrera_rep codigo)) codigos_comunes))"

fun comparar_carreras_palermo ::
  "valores_por_carrera \<Rightarrow> valores_por_carrera \<Rightarrow> int list \<Rightarrow> diferencia_palermo list" where
  "comparar_carreras_palermo apuestas_pdf datos_reporte [] = []"
| "comparar_carreras_palermo apuestas_pdf datos_reporte (n # ns) =
     (case map_of apuestas_pdf n of
        None \<Rightarrow> [SinApuestasEnPdf n]
      | Some ap \<Rightarrow>
          (case map_of datos_reporte n of
             None \<Rightarrow> [NoEstaEnReporte n]
           | Some ar \<Rightarrow> comparar_carrera_palermo n ap ar))
     @ comparar_carreras_palermo apuestas_pdf datos_reporte ns"

text \<open>\<^verbatim>\<open>comparar_palermo\<close> on the data read from the PDF and the content of the report:
  \<^verbatim>\<open>(coincide_todo, diferencias, fechas)\<close>.\<close>

definition comparar_palermo ::
  "datos_palermo \<Rightarrow> string \<Rightarrow> string option \<Rightarrow> bool \<times> diferencia_palermo list \<times> string list" where
  "comparar_palermo datos_pdf contenido_reporte fecha_objetivo =
     (let datos_reporte = normalizar_reporte_palermo contenido_reporte;
          apuestas_pdf = apuestas_pdf_palermo fecha_objetivo datos_pdf datos_reporte;
          diferencias =
            comparar_carreras_palermo apuestas_pdf datos_reporte
              (sort (remdups (map fst apuestas_pdf @ map fst datos_reporte)))
      in (length diferencias = 0, diferencias, fechas datos_pdf))"

text \<open>The date tokens on a page, line by line.\<close>

definition fechas_de_pagina :: "string \<Rightarrow> string list" where
  "fechas_de_pagina texto =
     concat (map (\<lambda>linea. fechas_de_linea (py_strip linea)) (py_split (CHR 0x0A) texto))"

section \<open>Sample inputs\<close>

text \<open>A report with the race lines 1 and 2 and one ALL row in its RSM TABLE.\<close>

definition reporte_dos_carreras :: string where
  "reporte_dos_carreras =
     ''1 EXA 1/9\<newline>2 EXA 1/9\<newline>RSM TABLE\<newline>1 ALL --- EXA TS 5''"

text \<open>A report with no race line and one ALL row.\<close>

definition reporte_sin_carreras :: string where
  "reporte_sin_carreras = ''RSM TABLE\<newline>1 ALL --- EXA TS 5''"

text \<open>A report whose only amount for GAN stands in the default-minimums section.\<close>

definition reporte_con_default :: string where
  "reporte_con_default = ''1 GAN 1/9\<newline>CARD DEFAULT MINIMUMS - ARS GAN 2''"

section \<open>Auxiliary notions for the proofs\<close>

text \<open>The characters a numeric literal of \<^verbatim>\<open>float\<close> can contain.\<close>

definition permitido :: "char \<Rightarrow> bool" where
  "permitido c = (es_digito c \<or> c = CHR ''_'' \<or> c = CHR ''.'' \<or> c = CHR ''e'' \<or> c = CHR ''E''
                  \<or> c = CHR ''+'' \<or> c = CHR ''-'')"

text \<open>
  What a pattern can match, apart from the order in which the matcher tries the ways:
  \<^verbatim>\<open>acepta s r i j\<close> holds when \<^verbatim>\<open>r\<close> can match the text \<^verbatim>\<open>s\<close> from position
  \<^verbatim>\<open>i\<close> to position \<^verbatim>\<open>j\<close>. A round of a repetition consumes at least one character.
\<close>

inductive acepta :: "string \<Rightarrow> rx \<Rightarrow> nat \<Rightarrow> nat \<Rightarrow> bool" for s :: string where
  acepta_Cls: "i < length s \<Longrightarrow> P (s ! i) \<Longrightarrow> acepta s (Cls P) i (Suc i)"
| acepta_Vacio: "acepta s Vacio i i"
| acepta_Sec: "acepta s a i k \<Longrightarrow> acepta s b k j \<Longrightarrow> acepta s (Sec a b) i j"
| acepta_Alt1: "acepta s a i j \<Longrightarrow> acepta s (Alt a b) i j"
| acepta_Alt2: "acepta s b i j \<Longrightarrow> acepta s (Alt a b) i j"
| acepta_Star0: "acepta s (Star a) i i"
| acepta_Star1: "acepta s a i k \<Longrightarrow> i < k \<Longrightarrow> acepta s (Star a) k j \<Longrightarrow> acepta s (Star a) i j"
| acepta_StarL0: "acepta s (StarL a) i i"
| acepta_StarL1: "acepta s a i k \<Longrightarrow> i < k \<Longrightarrow> acepta s (StarL a) k j \<Longrightarrow> acepta s (StarL a) i j"
| acepta_Grupo: "acepta s a i j \<Longrightarrow> acepta s (Grupo n a) i j"
| acepta_Bol: "es_inicio_linea s i \<Longrightarrow> acepta s Bol i i"
| acepta_Borde: "es_borde s i \<Longrightarrow> acepta s Borde i i"

text \<open>\<^verbatim>\<open>s[i:j]\<close>.\<close>

definition subcadena :: "string \<Rightarrow> nat \<Rightarrow> nat \<Rightarrow> string" where
  "subcadena s i j = take (j - i) (drop i s)"

text \<open>
  A pattern without \<^verbatim>\<open>^\<close> and \<^verbatim>\<open>\b\<close> matches a piece of the text whatever is around
  it: \<^verbatim>\<open>describe r G\<close> says that the pieces \<^verbatim>\<open>r\<close> matches are the texts with \<^verbatim>\<open>G\<close>.
\<close>

definition describe :: "rx \<Rightarrow> (string \<Rightarrow> bool) \<Rightarrow> bool" where
  "describe r G =
     (\<forall>s i j. i \<le> length s \<longrightarrow> (acepta s r i j \<longleftrightarrow> i \<le> j \<and> j \<le> length s \<and> G (subcadena s i j)))"

section \<open>The markers of a bet name, as texts\<close>

text \<open>
  A stage marker: a word, a period when the marker allows one, any whitespace, and
  \<^verbatim>\<open>pase\<close>, with letters in either case.
\<close>

definition con_pase :: "string \<Rightarrow> bool \<Rightarrow> string \<Rightarrow> bool" where
  "con_pase palabra punto x =
     (\<exists>a p ws b. x = a @ p @ ws @ b \<and> py_lower a = palabra \<and> (p = [] \<or> (punto \<and> p = ''.''))
        \<and> list_all py_isspace ws \<and> py_lower b = ''pase'')"

text \<open>Some piece of the name is a marker of the second to fifth or of the last stage.\<close>

definition contiene_pase_posterior :: "string \<Rightarrow> bool" where
  "contiene_pase_posterior nombre =
     (\<exists>i j. i \<le> j \<and> j \<le> length nombre
        \<and> (con_pase ''2do'' True (subcadena nombre i j) \<or> con_pase ''3er'' True (subcadena nombre i j)
           \<or> con_pase ''4to'' True (subcadena nombre i j) \<or> con_pase ''5to'' True (subcadena nombre i j)
           \<or> con_pase ''ultimo'' False (subcadena nombre i j)))"

text \<open>Some piece of the name is the whole word \<^verbatim>\<open>final\<close>, or \<^verbatim>\<open>final\<close> followed by
  \<^verbatim>\<open>pase\<close>.\<close>

definition contiene_final :: "string \<Rightarrow> bool" where
  "contiene_final nombre =
     (\<exists>i j. i \<le> j \<and> j \<le> length nombre
        \<and> ((py_lower (subcadena nombre i j) = ''final'' \<and> es_borde nombre i \<and> es_borde nombre j)
           \<or> con_pase ''final'' False (subcadena nombre i j)))"

text \<open>Some piece of the name, between word boundaries, is a marker of the first stage.\<close>

definition contiene_primer_pase :: "string \<Rightarrow> bool" where
  "contiene_primer_pase nombre =
     (\<exists>i j. i \<le> j \<and> j \<le> length nombre \<and> es_borde nombre i \<and> es_borde nombre j
        \<and> (con_pase ''1er'' True (subcadena nombre i j) \<or> con_pase ''1re'' True (subcadena nombre i j)))"

section \<open>Reconciliation: properties\<close>

lemma tolerancia_doble: "doble (1 / 100) = Finite (5764607523034235 / 576460752303423488)"
  by code_simp

lemma fsub_mismo: "fsub x x = Finite 0 \<or> fsub x x = NaN"
  by (cases x) (simp_all add: doble_def)

lemma excede_tolerancia_refl: "\<not> excede_tolerancia v v"
  using fsub_mismo[of "como_doble v"] by (auto simp: excede_tolerancia_def tolerancia_doble)


lemma comparar_valor_refl: "comparar_valor n codigo v v = []"
  by (cases v) (simp_all add: excede_tolerancia_refl)

lemma comparar_comunes_refl: "comparar_comunes n a a cs = []"
  by (induction cs) (simp_all add: comparar_valor_refl)

lemma comparar_carrera_refl: "comparar_carrera n c c = []"
  by (simp add: comparar_carrera_def Let_def comparar_comunes_refl)

lemma comparar_carreras_refl:
  "set ns \<subseteq> fst ` set d \<Longrightarrow> comparar_carreras d d ns = []"
proof (induction ns)
  case Nil
  then show ?case by simp
next
  case (Cons n ns)
  then have "n \<in> fst ` set d" by simp
  then obtain c where "map_of d n = Some c"
    by (metis domD dom_map_of_conv_image_fst)
  with Cons show ?case by (simp add: comparar_carrera_refl)
qed

text \<open>
  C9. Comparing a canonical structure with itself gives the verdict True and an empty list
  of discrepancies, whatever the structure.
\<close>

theorem comparar_datos_mismo: "comparar_datos d d = (True, [])"
proof -
  have "set (sort (todas_las_carreras d d)) \<subseteq> fst ` set d"
    by (auto simp: todas_las_carreras_def)
  then have "comparar_carreras d d (sort (todas_las_carreras d d)) = []"
    by (rule comparar_carreras_refl)
  then show ?thesis by (simp add: comparar_datos_def)
qed

theorem comparar_datos_mismo_witness:
  "comparar_datos
     [(1, \<lparr>caballos = 15, apuestas = [(''GAN'', None), (''IMP'', Some (Finite 1000))]\<rparr>),
      (2, \<lparr>caballos = 9, apuestas = [(''EXA'', Some (Finite 500))]\<rparr>)]
     [(1, \<lparr>caballos = 15, apuestas = [(''GAN'', None), (''IMP'', Some (Finite 1000))]\<rparr>),
      (2, \<lparr>caballos = 9, apuestas = [(''EXA'', Some (Finite 500))]\<rparr>)]
   = (True, [])"
  by (rule comparar_datos_mismo)













section \<open>The configuration report: properties\<close>

lemma set_unir: "set (unir a b) = set a \<union> set b"
  by (auto simp: unir_def)

lemma obtener_update: "obtener (AList.update k v d) k' = (if k' = k then v else obtener d k')"
  by (simp add: obtener_def update_conv')

lemma claves_update: "fst ` set (AList.update k v d) = insert k (fst ` set d)"
  by (simp add: dom_update)

lemma pase_disponibilidad_codigos:
  "set (obtener (fst (pase_disponibilidad lineas st)) n)
     = set (obtener (fst st) n) \<union> codigos_disponibles lineas n"
proof (induction lineas arbitrary: st)
  case Nil
  then show ?case by simp
next
  case (Cons linea resto)
  show ?case
  proof (cases "re_match patron_carrera linea")
    case None
    with Cons show ?thesis by simp
  next
    case (Some m)
    with Cons show ?thesis
      by (auto simp: Let_def obtener_update set_unir)
  qed
qed

lemma pase_disponibilidad_claves:
  "fst ` set (fst st) = fst ` set (snd st) \<Longrightarrow>
   fst ` set (fst (pase_disponibilidad lineas st)) = fst ` set (snd (pase_disponibilidad lineas st))"
proof (induction lineas arbitrary: st)
  case Nil
  then show ?case by simp
next
  case (Cons linea resto)
  show ?case
  proof (cases "re_match patron_carrera linea")
    case None
    with Cons show ?thesis by simp
  next
    case (Some m)
    show ?thesis
      using Some Cons.prems
      by (simp add: Let_def Cons.IH claves_update)
  qed
qed

lemma disponibilidad_claves:
  "fst ` set (fst (disponibilidad contenido)) = fst ` set (snd (disponibilidad contenido))"
  unfolding disponibilidad_def by (rule pase_disponibilidad_claves) simp

lemma disponibilidad_codigos:
  "set (obtener (fst (disponibilidad contenido)) n)
     = codigos_disponibles (py_split (CHR 0x0A) contenido) n"
proof -
  have "obtener ([] :: apuestas_por_carrera) n = []" by (simp add: obtener_def)
  then show ?thesis
    unfolding disponibilidad_def by (simp add: pase_disponibilidad_codigos)
qed

lemma map_of_tabla: "map_of (map (\<lambda>k. (k, f k)) ks) n = (if n \<in> set ks then Some (f n) else None)"
  by (induction ks) auto

lemma map_of_combinar:
  "map_of (combinar ap cab val d) n =
     (if n \<in> fst ` set cab \<union> fst ` set ap
      then Some \<lparr>caballos = (case map_of cab n of None \<Rightarrow> 0 | Some c \<Rightarrow> c),
                 apuestas = apuestas_de_carrera (obtener ap n) (obtener val n)\<rparr>
      else None)"
  by (simp add: combinar_def map_of_tabla)

lemma claves_combinar: "fst ` set (combinar ap cab val d) = fst ` set cab \<union> fst ` set ap"
  by (simp add: combinar_def image_comp comp_def image_Un)

lemma map_of_apuestas_de_carrera:
  "map_of (apuestas_de_carrera a v) codigo = (if codigo \<in> set a then Some (map_of v codigo) else None)"
  by (simp add: apuestas_de_carrera_def map_of_tabla)

lemma claves_apuestas_de_carrera: "map fst (apuestas_de_carrera a v) = a"
  by (simp add: apuestas_de_carrera_def comp_def)

lemma normalizar_reporte_eq:
  "normalizar_reporte contenido =
     combinar (fst (disponibilidad contenido)) (snd (disponibilidad contenido))
       (pase_rsm contenido (snd (disponibilidad contenido))) d"
  by (simp add: normalizar_reporte_def combinar_def split: prod.splits)

lemma claves_asignar: "fst ` set (asignar carrera codigo v valores) = insert carrera (fst ` set valores)"
  by (simp add: asignar_def claves_update)

lemma claves_asignar_carreras:
  "fst ` set (asignar_carreras reales codigo v cs valores)
     = fst ` set valores \<union> {c \<in> set cs. reales = [] \<or> c \<in> set reales}"
  by (induction cs arbitrary: valores) (auto simp: claves_asignar)

lemma claves_fila_rsm:
  "reales \<noteq> [] \<Longrightarrow>
   fst ` set (fila_rsm reales race_map tipo valor_str valores) \<subseteq> fst ` set valores \<union> set reales"
  by (auto simp: fila_rsm_def claves_asignar_carreras split: option.splits)

lemma claves_filas_rsm:
  "reales \<noteq> [] \<Longrightarrow>
   fst ` set (filas_rsm reales seccion ms valores) \<subseteq> fst ` set valores \<union> set reales"
proof (induction ms arbitrary: valores)
  case Nil
  then show ?case by simp
next
  case (Cons m ms)
  from Cons.IH[OF Cons.prems]
       claves_fila_rsm[OF Cons.prems, of "py_strip (grupo seccion m 1)" "py_strip (grupo seccion m 2)"
          "py_strip (grupo seccion m 3)" valores]
  show ?case by (simp only: filas_rsm.simps) blast
qed

lemma claves_pase_rsm:
  "caballos_pc \<noteq> [] \<Longrightarrow> fst ` set (pase_rsm contenido caballos_pc) \<subseteq> fst ` set caballos_pc"
proof -
  assume ne: "caballos_pc \<noteq> []"
  then have "sort (map fst caballos_pc) \<noteq> []"
    by (metis Nil_is_map_conv length_0_conv length_sort)
  from claves_filas_rsm[OF this, of _ _ "[]"]
  have "fst ` set (filas_rsm (sort (map fst caballos_pc)) seccion ms []) \<subseteq> fst ` set caballos_pc"
    for seccion ms
    by simp
  then show ?thesis
    by (cases "seccion_rsm contenido") (simp_all add: pase_rsm_def)
qed

lemma claves_normalizar_reporte:
  "fst ` set (normalizar_reporte contenido) = fst ` set (snd (disponibilidad contenido))"
  by (simp add: normalizar_reporte_eq[of contenido "[]"] claves_combinar disponibilidad_claves)

lemma normalizar_reporte_con_default:
  "normalizar_reporte reporte_con_default = [(1, \<lparr>caballos = 1, apuestas = [(''GAN'', None)]\<rparr>)]"
  by code_simp

lemma leer_valores_default_con_default:
  "leer_valores_default reporte_con_default = [(''GAN'', Finite 2)]"
  by code_simp

lemma normalizar_reporte_dos_carreras:
  "normalizar_reporte reporte_dos_carreras =
     [(1, \<lparr>caballos = 1, apuestas = [(''EXA'', Some (Finite 5))]\<rparr>),
      (2, \<lparr>caballos = 1, apuestas = [(''EXA'', Some (Finite 5))]\<rparr>)]"
  by code_simp

text \<open>
  C5. For every report text and every race of the result: the codes of the race are exactly
  the codes that the availability pass collected for it (the union over its race lines and
  their continuation lines); the amount of each code is the value the RSM TABLE pass holds
  for that race and code, and None when it holds none; the result does not depend on the
  values read from CARD DEFAULT MINIMUMS.
\<close>

theorem normalizar_reporte_apuestas:
  assumes "map_of (normalizar_reporte contenido) n = Some c"
  shows "fst ` set (apuestas c) = set (obtener (fst (disponibilidad contenido)) n)
       \<and> set (obtener (fst (disponibilidad contenido)) n)
           = codigos_disponibles (py_split (CHR 0x0A) contenido) n
       \<and> (\<forall>codigo \<in> fst ` set (apuestas c).
             valor_de (apuestas c) codigo
               = map_of (obtener (pase_rsm contenido (snd (disponibilidad contenido))) n) codigo)
       \<and> (\<forall>d. normalizar_reporte contenido =
               combinar (fst (disponibilidad contenido)) (snd (disponibilidad contenido))
                 (pase_rsm contenido (snd (disponibilidad contenido))) d)
       \<and> caballos c = (case map_of (snd (disponibilidad contenido)) n of None \<Rightarrow> 0 | Some k \<Rightarrow> k)"
proof -
  let ?ap = "fst (disponibilidad contenido)"
  let ?cab = "snd (disponibilidad contenido)"
  let ?val = "pase_rsm contenido ?cab"
  from assms have c: "c = \<lparr>caballos = (case map_of ?cab n of None \<Rightarrow> 0 | Some c \<Rightarrow> c),
                 apuestas = apuestas_de_carrera (obtener ?ap n) (obtener ?val n)\<rparr>"
    by (simp add: normalizar_reporte_eq[of contenido "[]"] map_of_combinar split: if_splits)
  have 1: "fst ` set (apuestas c) = set (obtener ?ap n)"
    using claves_apuestas_de_carrera[of "obtener ?ap n" "obtener ?val n"]
    by (subst c) (simp flip: set_map)
  have 3: "valor_de (apuestas c) codigo = map_of (obtener ?val n) codigo"
    if "codigo \<in> fst ` set (apuestas c)" for codigo
    using that unfolding 1 by (subst c) (simp add: valor_de_def map_of_apuestas_de_carrera)
  have 5: "caballos c = (case map_of ?cab n of None \<Rightarrow> 0 | Some k \<Rightarrow> k)"
    by (subst c) simp
  show ?thesis
    using 1 3 5 disponibilidad_codigos[of contenido n] normalizar_reporte_eq[of contenido]
    by blast
qed

theorem normalizar_reporte_apuestas_witness:
  "map_of (normalizar_reporte reporte_con_default) 1 = Some \<lparr>caballos = 1, apuestas = [(''GAN'', None)]\<rparr>
   \<and> set (obtener (fst (disponibilidad reporte_con_default)) 1) = {''GAN''}
   \<and> map_of (obtener (pase_rsm reporte_con_default (snd (disponibilidad reporte_con_default))) 1) ''GAN'' = None
   \<and> leer_valores_default reporte_con_default = [(''GAN'', Finite 2)]"
proof -
  have h: "map_of (normalizar_reporte reporte_con_default) 1
             = Some \<lparr>caballos = 1, apuestas = [(''GAN'', None)]\<rparr>"
    by (simp add: normalizar_reporte_con_default)
  from normalizar_reporte_apuestas[OF h] h leer_valores_default_con_default
  show ?thesis by (simp add: valor_de_def)
qed

lemma normalizar_reporte_sin_carreras: "normalizar_reporte reporte_sin_carreras = []"
  by code_simp

text \<open>
  C4. For every report text the races of the result are exactly the races that the
  availability pass discovered, so no row of the RSM TABLE, ALL or explicit, gives the result
  an entry for another race. An ALL row goes to exactly the discovered races when there are
  any, not to the races 1 to 15; and when there are any, no row writes a value for a race
  outside that set, neither in one step nor over the whole table. A report with the races 1
  and 2 and an ALL row has entries for 1 and 2 and none for the races 3 to 15, and a report
  with no race and an ALL row has no entry at all.
\<close>

theorem normalizar_reporte_all:
  "fst ` set (normalizar_reporte contenido) = fst ` set (snd (disponibilidad contenido))
   \<and> (carreras_reales_reporte \<noteq> [] \<and> py_upper race_map = ''ALL'' \<longrightarrow>
        carreras_de_fila carreras_reales_reporte race_map = carreras_reales_reporte)
   \<and> (carreras_reales_reporte \<noteq> [] \<longrightarrow>
        fst ` set (fila_rsm carreras_reales_reporte race_map tipo_rsm valor_str valores)
            \<subseteq> fst ` set valores \<union> set carreras_reales_reporte)
   \<and> (snd (disponibilidad contenido) \<noteq> [] \<longrightarrow>
        fst ` set (pase_rsm contenido (snd (disponibilidad contenido)))
          \<subseteq> fst ` set (snd (disponibilidad contenido)))
   \<and> (snd (disponibilidad contenido) = [] \<longrightarrow> normalizar_reporte contenido = [])
   \<and> fst ` set (normalizar_reporte reporte_dos_carreras) = {1, 2}
   \<and> fst ` set (normalizar_reporte reporte_dos_carreras) \<inter> {3..15} = {}
   \<and> normalizar_reporte reporte_sin_carreras = []"
proof -
  have k: "fst ` set (normalizar_reporte reporte_dos_carreras) = {1, 2}"
    by (simp add: normalizar_reporte_dos_carreras insert_commute)
  then have k': "fst ` set (normalizar_reporte reporte_dos_carreras) \<inter> {3..15} = {}"
    by simp
  have v: "snd (disponibilidad contenido) = [] \<longrightarrow> normalizar_reporte contenido = []"
    using claves_normalizar_reporte[of contenido] by auto
  from claves_normalizar_reporte[of contenido] claves_pase_rsm[of "snd (disponibilidad contenido)" contenido]
    claves_fila_rsm[of carreras_reales_reporte race_map tipo_rsm valor_str valores] k k' v
    normalizar_reporte_sin_carreras
  show ?thesis
    by (simp add: carreras_de_fila_def)
qed

theorem normalizar_reporte_all_witness:
  "fst ` set (normalizar_reporte reporte_dos_carreras) = {1, 2}
   \<and> carreras_de_fila [1, 2] ''ALL'' = [1, 2]
   \<and> fst ` set (snd (disponibilidad reporte_dos_carreras)) = {1, 2}
   \<and> fst ` set (pase_rsm reporte_dos_carreras (snd (disponibilidad reporte_dos_carreras))) \<subseteq> {1, 2}"
proof -
  have k: "fst ` set (normalizar_reporte reporte_dos_carreras) = {1, 2}"
    by (simp add: normalizar_reporte_dos_carreras insert_commute)
  from normalizar_reporte_all[of reporte_dos_carreras "[1, 2]" "''ALL''" "''EXA''" "''5''" "[]"] k
  have d: "fst ` set (snd (disponibilidad reporte_dos_carreras)) = {1, 2}"
    by simp
  then have ne: "snd (disponibilidad reporte_dos_carreras) \<noteq> []"
    by auto
  have u: "py_upper ''ALL'' = ''ALL''"
    by code_simp
  from normalizar_reporte_all[of reporte_dos_carreras "[1, 2]" "''ALL''" "''EXA''" "''5''" "[]"] k d ne u
  show ?thesis by simp
qed
section \<open>The race-range expander: properties\<close>

lemma dropWhile_rev_hd:
  assumes "dropWhile P (rev (dropWhile P s)) \<noteq> []"
  shows "dropWhile P (rev (dropWhile P (rev (dropWhile P s)))) = rev (dropWhile P (rev (dropWhile P s)))"
proof -
  let ?t = "dropWhile P s"
  let ?u = "dropWhile P (rev ?t)"
  have tne: "?t \<noteq> []"
  proof
    assume "?t = []"
    then have "?u = []" by (simp only: rev.simps dropWhile.simps)
    with assms show False by simp
  qed
  then have "\<not> P (hd ?t)" by (rule hd_dropWhile)
  obtain ys where ys: "rev ?t = ys @ ?u"
    by (metis takeWhile_dropWhile_id)
  then have "?t = rev ?u @ rev ys" by (metis rev_append rev_rev_ident)
  moreover from assms have "rev ?u \<noteq> []" by simp
  ultimately have "hd (rev ?u) = hd ?t" by (metis hd_append2)
  with \<open>\<not> P (hd ?t)\<close> \<open>rev ?u \<noteq> []\<close> show ?thesis
    by (cases "rev ?u") auto
qed

lemma py_strip_idem: "py_strip (py_strip s) = py_strip s"
proof (cases "dropWhile py_isspace (rev (dropWhile py_isspace s)) = []")
  case True
  show ?thesis unfolding py_strip_def True by simp
next
  case False
  from dropWhile_rev_hd[OF False] show ?thesis
    by (simp add: py_strip_def)
qed

lemma py_int_strip: "py_int (py_strip s) = py_int s"
  by (simp add: py_int_def py_strip_idem)

lemma expandir_rango_eq:
  "CHR ''-'' \<in> set seg \<Longrightarrow> (case expandir_rango seg of None \<Rightarrow> [] | Some r \<Rightarrow> r) = valor_segmento seg"
  by (simp add: expandir_rango_def valor_segmento_def py_int_strip
           split: list.splits option.splits)

lemma expandir_partes_eq:
  "expandir_partes partes = concat (map (\<lambda>p. valor_segmento (py_strip p)) partes)"
proof (induction partes)
  case Nil
  then show ?case by simp
next
  case (Cons p ps)
  have vacio: "valor_segmento [] = []"
    by (simp add: valor_segmento_def py_int_def py_strip_def quitar_signo_def leer_digitos_def)
  show ?case
  proof (cases "py_strip p = []")
    case True
    with Cons vacio show ?thesis by simp
  next
    case False
    show ?thesis
    proof (cases "CHR ''-'' \<in> set (py_strip p)")
      case True
      with False Cons expandir_rango_eq[OF True] show ?thesis by simp
    next
      case False
      with \<open>py_strip p \<noteq> []\<close> Cons show ?thesis
        by (simp add: valor_segmento_def)
    qed
  qed
qed

text \<open>
  C8. The expander trims and upper-cases the expression. ALL gives the races 1 to 15 (the
  expander has no universe of its own); the caller \<^verbatim>\<open>_normalizar_reporte\<close> replaces that
  by the races it knows when it knows any. A comma list gives the concatenation of what its
  segments contribute. Without commas, a two-part hyphen expression whose two ends parse
  gives the inclusive range; any other expression gives its single integer, or nothing when
  it fails integer parsing.
\<close>

theorem expandir_race_map_spec:
  "(py_upper (py_strip race_map) = ''ALL'' \<longrightarrow> expandir_race_map race_map = [1..15])
   \<and> (carreras_reales \<noteq> [] \<and> py_upper race_map = ''ALL'' \<longrightarrow>
         carreras_de_fila carreras_reales race_map = carreras_reales)
   \<and> (py_upper race_map = ''ALL'' \<longrightarrow> carreras_de_fila [] race_map = expandir_race_map race_map)
   \<and> (py_upper (py_strip race_map) \<noteq> ''ALL'' \<and> CHR '','' \<in> set (py_upper (py_strip race_map)) \<longrightarrow>
         expandir_race_map race_map
           = concat (map (\<lambda>p. valor_segmento (py_strip p))
                       (py_split (CHR '','') (py_upper (py_strip race_map)))))
   \<and> (py_upper (py_strip race_map) \<noteq> ''ALL'' \<and> CHR '','' \<notin> set (py_upper (py_strip race_map))
        \<and> CHR ''-'' \<in> set (py_upper (py_strip race_map))
        \<and> py_split (CHR ''-'') (py_upper (py_strip race_map)) = [x, y]
        \<and> py_int x = Some a \<and> py_int y = Some b \<longrightarrow>
         expandir_race_map race_map = [a..b])
   \<and> (py_upper (py_strip race_map) \<noteq> ''ALL'' \<and> CHR '','' \<notin> set (py_upper (py_strip race_map))
        \<and> \<not> (CHR ''-'' \<in> set (py_upper (py_strip race_map))
              \<and> (\<exists>x y a b. py_split (CHR ''-'') (py_upper (py_strip race_map)) = [x, y]
                     \<and> py_int x = Some a \<and> py_int y = Some b)) \<longrightarrow>
         expandir_race_map race_map
           = (case py_int (py_upper (py_strip race_map)) of None \<Rightarrow> [] | Some n \<Rightarrow> [n]))
   \<and> expandir_race_map ''1-13'' = [1, 2, 3, 4, 5, 6, 7, 8, 9, 10, 11, 12, 13]
   \<and> expandir_race_map ''2,4,6-7,10'' = [2, 4, 6, 7, 10]"
proof -
  let ?r = "py_upper (py_strip race_map)"
  have 1: "?r = ''ALL'' \<longrightarrow> expandir_race_map race_map = [1..15]"
    by (simp add: expandir_race_map_def)
  have 2: "carreras_reales \<noteq> [] \<and> py_upper race_map = ''ALL'' \<longrightarrow>
         carreras_de_fila carreras_reales race_map = carreras_reales"
    by (simp add: carreras_de_fila_def)
  have 3: "py_upper race_map = ''ALL'' \<longrightarrow> carreras_de_fila [] race_map = expandir_race_map race_map"
    by (simp add: carreras_de_fila_def)
  have 4: "?r \<noteq> ''ALL'' \<and> CHR '','' \<in> set ?r \<longrightarrow>
         expandir_race_map race_map = concat (map (\<lambda>p. valor_segmento (py_strip p)) (py_split (CHR '','') ?r))"
    by (simp add: expandir_race_map_def expandir_partes_eq)
  have 5: "?r \<noteq> ''ALL'' \<and> CHR '','' \<notin> set ?r \<and> CHR ''-'' \<in> set ?r
        \<and> py_split (CHR ''-'') ?r = [x, y] \<and> py_int x = Some a \<and> py_int y = Some b \<longrightarrow>
         expandir_race_map race_map = [a..b]"
    by (simp add: expandir_race_map_def expandir_rango_def py_int_strip)
  have 6: "?r \<noteq> ''ALL'' \<and> CHR '','' \<notin> set ?r
        \<and> \<not> (CHR ''-'' \<in> set ?r
              \<and> (\<exists>x y a b. py_split (CHR ''-'') ?r = [x, y] \<and> py_int x = Some a \<and> py_int y = Some b)) \<longrightarrow>
         expandir_race_map race_map = (case py_int ?r of None \<Rightarrow> [] | Some n \<Rightarrow> [n])"
    by (auto simp: expandir_race_map_def expandir_rango_def py_int_strip Let_def
             split: if_splits list.splits option.splits)
  have 8: "expandir_race_map ''1-13'' = [1, 2, 3, 4, 5, 6, 7, 8, 9, 10, 11, 12, 13]"
    by code_simp
  have 9: "expandir_race_map ''2,4,6-7,10'' = [2, 4, 6, 7, 10]"
    by code_simp
  from 1 2 3 4 5 6 8 9 show ?thesis by blast
qed

lemma partes_de_6_7: "py_upper (py_strip ''6-7'') = ''6-7'' \<and> py_split (CHR ''-'') ''6-7'' = [''6'', ''7'']
    \<and> py_int ''6'' = Some 6 \<and> py_int ''7'' = Some 7"
  by code_simp

theorem expandir_race_map_spec_witness:
  "expandir_race_map ''6-7'' = [6, 7] \<and> carreras_de_fila [1, 2, 3] ''ALL'' = [1, 2, 3]
   \<and> expandir_race_map ''1-13'' = [1, 2, 3, 4, 5, 6, 7, 8, 9, 10, 11, 12, 13]"
proof -
  have u: "py_upper ''ALL'' = ''ALL''" by code_simp
  have r: "[6..7] = [6, 7::int]" by code_simp
  from expandir_race_map_spec[of "''6-7''" "[1, 2, 3]" "''6''" "''7''" 6 7] partes_de_6_7 r
  have a: "expandir_race_map ''6-7'' = [6, 7]" by simp
  from expandir_race_map_spec[of "''ALL''" "[1, 2, 3]" "''6''" "''7''" 6 7] u
  have b: "carreras_de_fila [1, 2, 3] ''ALL'' = [1, 2, 3]
     \<and> expandir_race_map ''1-13'' = [1, 2, 3, 4, 5, 6, 7, 8, 9, 10, 11, 12, 13]" by simp
  from a b show ?thesis by simp
qed

section \<open>The Palermo variant: properties\<close>

lemma en_claves: "c \<in> fst ` set d \<longleftrightarrow> map_of d c \<noteq> None"
  by (simp add: map_of_eq_None_iff)

lemma obtener_asignar:
  "map_of (obtener (asignar carrera codigo v ap) carrera') codigo' =
     (if carrera' = carrera \<and> codigo' = codigo then Some v else map_of (obtener ap carrera') codigo')"
  by (simp add: asignar_def obtener_update update_conv')

lemma obtener_update_vacio:
  "carrera \<notin> fst ` set ap \<Longrightarrow> obtener (AList.update carrera [] ap) carrera' = obtener ap carrera'"
proof -
  assume "carrera \<notin> fst ` set ap"
  then have "map_of ap carrera = None" by (simp add: map_of_eq_None_iff)
  then have "obtener ap carrera = []" by (simp add: obtener_def)
  then show ?thesis by (simp add: obtener_update)
qed

lemma completar_carreras_valor:
  "map_of (obtener (completar_carreras codigo v cs ap) carrera) codigo' =
     (if codigo' = codigo \<and> carrera \<in> set cs \<and> map_of (obtener ap carrera) codigo = None
      then Some v else map_of (obtener ap carrera) codigo')"
proof (induction cs arbitrary: ap)
  case Nil
  then show ?case by simp
next
  case (Cons c cs)
  show ?case
    by (simp add: Cons.IH en_claves obtener_asignar obtener_update_vacio) 
       (auto simp: obtener_update_vacio en_claves)
qed


lemma completar_codigos_igual:
  "(\<forall>info. map_of resumen_fecha codigo = Some info \<longrightarrow> conteo_lineas info \<noteq> 1) \<or> codigo \<notin> set cs \<Longrightarrow>
   map_of (obtener (completar_codigos resumen_fecha carreras_reporte cs ap) carrera) codigo
     = map_of (obtener ap carrera) codigo"
proof (induction cs arbitrary: ap)
  case Nil
  then show ?case by simp
next
  case (Cons c cs)
  then show ?case
    by (auto simp: completar_carreras_valor split: option.splits)
qed

lemma completar_codigos_unica:
  "map_of resumen_fecha codigo = Some info \<Longrightarrow> conteo_lineas info = 1 \<Longrightarrow> codigo \<in> set cs \<Longrightarrow>
   map_of (obtener (completar_codigos resumen_fecha carreras_reporte cs ap) carrera) codigo
     = (if carrera \<in> set carreras_reporte \<and> map_of (obtener ap carrera) codigo = None
        then Some (valor info) else map_of (obtener ap carrera) codigo)"
proof (induction cs arbitrary: ap)
  case Nil
  then show ?case by simp
next
  case (Cons c cs)
  show ?case
  proof (cases "codigo \<in> set cs")
    case True
    from Cons.IH[OF Cons.prems(1,2) True] Cons.prems(1,2) show ?thesis
      by (auto simp: completar_carreras_valor split: option.splits)
  next
    case False
    with Cons.prems have "c = codigo" by simp
    with False Cons.prems(1,2) completar_codigos_igual[of resumen_fecha codigo cs] show ?thesis
      by (simp add: completar_carreras_valor)
  qed
qed

text \<open>
  C6. \<^verbatim>\<open>comparar_palermo\<close> with a selected date \<^verbatim>\<open>f\<close>, for a code of the completion
  set (EXA and TRI). The summary of the date counts in \<^verbatim>\<open>conteo_lineas\<close> the lines that
  contributed the code. When the count is 1, every race of the report-derived structure that
  does not carry the code from the PDF on that date gets the amount of the summary, and every
  other entry of the code is left as the PDF gave it. When the code has no summary entry or
  its count is not 1, no race gets the code: its entries are those of the PDF.
\<close>

theorem completar_unica_linea:
  assumes "codigo \<in> set codigos_all_si_unica"
  shows "(map_of (obtener (resumen_por_fecha datos_pdf) f) codigo = Some info \<and> conteo_lineas info = 1 \<longrightarrow>
            map_of (obtener (apuestas_pdf_palermo (Some f) datos_pdf datos_reporte) carrera) codigo
              = (if carrera \<in> fst ` set datos_reporte
                    \<and> map_of (obtener (obtener (apuestas_por_fecha datos_pdf) f) carrera) codigo = None
                 then Some (valor info)
                 else map_of (obtener (obtener (apuestas_por_fecha datos_pdf) f) carrera) codigo))
       \<and> (map_of (obtener (resumen_por_fecha datos_pdf) f) codigo = None
            \<or> (map_of (obtener (resumen_por_fecha datos_pdf) f) codigo = Some info \<and> conteo_lineas info \<noteq> 1) \<longrightarrow>
            map_of (obtener (apuestas_pdf_palermo (Some f) datos_pdf datos_reporte) carrera) codigo
              = map_of (obtener (obtener (apuestas_por_fecha datos_pdf) f) carrera) codigo)"
  using assms completar_codigos_unica[of "obtener (resumen_por_fecha datos_pdf) f" codigo info
          codigos_all_si_unica "map fst datos_reporte" "obtener (apuestas_por_fecha datos_pdf) f" carrera]
        completar_codigos_igual[of "obtener (resumen_por_fecha datos_pdf) f" codigo
          codigos_all_si_unica "map fst datos_reporte" "obtener (apuestas_por_fecha datos_pdf) f" carrera]
  by (auto simp: apuestas_pdf_palermo_def)

theorem completar_unica_linea_witness:
  "map_of (obtener (apuestas_pdf_palermo (Some ''1/2/26'')
        \<lparr>fechas = [''1/2/26''],
         apuestas_por_fecha = [(''1/2/26'', [(1, [(''EXA'', Finite 500), (''TRI'', Finite 3)])])],
         resumen_por_fecha =
           [(''1/2/26'', [(''EXA'', \<lparr>conteo_lineas = 1, valor = Finite 500, carreras = [1]\<rparr>),
                          (''TRI'', \<lparr>conteo_lineas = 2, valor = Finite 3, carreras = [1]\<rparr>)])]\<rparr>
        [(1, [(''EXA'', Finite 500)]), (2, [(''EXA'', Finite 500)])]) 2) ''EXA'' = Some (Finite 500)
   \<and> map_of (obtener (apuestas_pdf_palermo (Some ''1/2/26'')
        \<lparr>fechas = [''1/2/26''],
         apuestas_por_fecha = [(''1/2/26'', [(1, [(''EXA'', Finite 500), (''TRI'', Finite 3)])])],
         resumen_por_fecha =
           [(''1/2/26'', [(''EXA'', \<lparr>conteo_lineas = 1, valor = Finite 500, carreras = [1]\<rparr>),
                          (''TRI'', \<lparr>conteo_lineas = 2, valor = Finite 3, carreras = [1]\<rparr>)])]\<rparr>
        [(1, [(''EXA'', Finite 500)]), (2, [(''EXA'', Finite 500)])]) 2) ''TRI'' = None"
proof -
  let ?d = "\<lparr>fechas = [''1/2/26''],
         apuestas_por_fecha = [(''1/2/26'', [(1, [(''EXA'', Finite 500), (''TRI'', Finite 3)])])],
         resumen_por_fecha =
           [(''1/2/26'', [(''EXA'', \<lparr>conteo_lineas = 1, valor = Finite 500, carreras = [1]\<rparr>),
                          (''TRI'', \<lparr>conteo_lineas = 2, valor = Finite 3, carreras = [1]\<rparr>)])]\<rparr>"
  let ?r = "[(1, [(''EXA'', Finite 500)]), (2, [(''EXA'', Finite (500::rat))])] :: valores_por_carrera"
  have a: "''EXA'' \<in> set codigos_all_si_unica" "''TRI'' \<in> set codigos_all_si_unica"
    by (simp_all add: codigos_all_si_unica_def)
  from completar_unica_linea[OF a(1), of ?d "''1/2/26''"
         "\<lparr>conteo_lineas = 1, valor = Finite 500, carreras = [1]\<rparr>" ?r 2]
  have 1: "map_of (obtener (apuestas_pdf_palermo (Some ''1/2/26'') ?d ?r) 2) ''EXA'' = Some (Finite 500)"
    by (simp add: obtener_def)
  from completar_unica_linea[OF a(2), of ?d "''1/2/26''"
         "\<lparr>conteo_lineas = 2, valor = Finite 3, carreras = [1]\<rparr>" ?r 2]
  have 2: "map_of (obtener (apuestas_pdf_palermo (Some ''1/2/26'') ?d ?r) 2) ''TRI'' = None"
    by (simp add: obtener_def)
  from 1 2 show ?thesis by simp
qed

lemma procesar_lineas_append:
  "procesar_lineas (xs @ ys) st = procesar_lineas ys (procesar_lineas xs st)"
  by (induction xs arbitrary: st) simp_all

lemma procesar_linea_sin_fecha:
  "fechas_de_linea (py_strip linea) = [] \<Longrightarrow> procesar_linea linea (None, d) = (None, d)"
  by (simp add: procesar_linea_def Let_def)

lemma procesar_lineas_sin_fecha:
  "\<forall>linea \<in> set antes. fechas_de_linea (py_strip linea) = [] \<Longrightarrow>
   procesar_lineas antes (None, d) = (None, d)"
  by (induction antes) (simp_all add: procesar_linea_sin_fecha)

lemma snd_anotar_fechas: "snd (anotar_fechas fs st) = (if fs = [] then snd st else Some (last fs))"
  by (induction fs arbitrary: st) simp_all

lemma registrar_otra_fecha:
  "f \<noteq> fecha_actual \<Longrightarrow>
   map_of (apuestas_por_fecha (registrar fecha_actual codigo v cs d)) f = map_of (apuestas_por_fecha d) f
   \<and> map_of (resumen_por_fecha (registrar fecha_actual codigo v cs d)) f = map_of (resumen_por_fecha d) f"
  by (simp add: registrar_def Let_def update_conv')

lemma fila_de_linea_otra_fecha:
  "f \<noteq> fecha_actual \<Longrightarrow>
   map_of (apuestas_por_fecha (fila_de_linea fecha_actual linea_stripped d)) f = map_of (apuestas_por_fecha d) f
   \<and> map_of (resumen_por_fecha (fila_de_linea fecha_actual linea_stripped d)) f = map_of (resumen_por_fecha d) f"
  by (simp add: fila_de_linea_def Let_def registrar_otra_fecha split: option.splits)

lemma procesar_linea_otra_fecha:
  assumes "fst st \<noteq> Some f" and "f \<notin> set (fechas_de_linea (py_strip linea))"
  shows "fst (procesar_linea linea st) \<noteq> Some f
       \<and> map_of (apuestas_por_fecha (snd (procesar_linea linea st))) f = map_of (apuestas_por_fecha (snd st)) f
       \<and> map_of (resumen_por_fecha (snd (procesar_linea linea st))) f = map_of (resumen_por_fecha (snd st)) f"
proof (cases "py_strip linea = []")
  case True
  with assms show ?thesis by (simp add: procesar_linea_def)
next
  case False
  let ?fs = "fechas_de_linea (py_strip linea)"
  let ?fa = "snd (anotar_fechas ?fs (fechas (snd st), fst st))"
  have fa: "?fa \<noteq> Some f"
  proof (cases "?fs = []")
    case True
    with assms(1) show ?thesis by (simp add: snd_anotar_fechas)
  next
    case False
    then have "last ?fs \<in> set ?fs" by simp
    with assms(2) False show ?thesis by (auto simp: snd_anotar_fechas)
  qed
  show ?thesis
  proof (cases ?fa)
    case None
    with False show ?thesis by (simp add: procesar_linea_def Let_def)
  next
    case (Some g)
    with fa have "f \<noteq> g" by auto
    from fila_de_linea_otra_fecha[OF this] False Some \<open>f \<noteq> g\<close> show ?thesis
      by (auto simp: procesar_linea_def Let_def)
  qed
qed

lemma procesar_lineas_otra_fecha:
  "fst st \<noteq> Some f \<Longrightarrow> \<forall>linea \<in> set lineas. f \<notin> set (fechas_de_linea (py_strip linea)) \<Longrightarrow>
   map_of (apuestas_por_fecha (snd (procesar_lineas lineas st))) f = map_of (apuestas_por_fecha (snd st)) f
   \<and> map_of (resumen_por_fecha (snd (procesar_lineas lineas st))) f = map_of (resumen_por_fecha (snd st)) f"
proof (induction lineas arbitrary: st)
  case Nil
  then show ?case by simp
next
  case (Cons linea lineas)
  from Cons.prems have a: "f \<notin> set (fechas_de_linea (py_strip linea))" by simp
  note p = procesar_linea_otra_fecha[OF Cons.prems(1) a]
  from Cons.prems(2) have "\<forall>linea \<in> set lineas. f \<notin> set (fechas_de_linea (py_strip linea))" by simp
  from Cons.IH[OF _ this, of "procesar_linea linea st"] p show ?case by simp
qed

lemma procesar_pagina_otra_fecha:
  "f \<notin> set (fechas_de_pagina texto) \<Longrightarrow>
   map_of (apuestas_por_fecha (procesar_pagina texto d)) f = map_of (apuestas_por_fecha d) f
   \<and> map_of (resumen_por_fecha (procesar_pagina texto d)) f = map_of (resumen_por_fecha d) f"
  using procesar_lineas_otra_fecha[of "(None, d)" f "py_split (CHR 0x0A) texto"]
  by (simp add: procesar_pagina_def fechas_de_pagina_def)

lemma procesar_paginas_otra_fecha:
  "\<forall>texto \<in> set paginas. f \<notin> set (fechas_de_pagina texto) \<Longrightarrow>
   map_of (apuestas_por_fecha (procesar_paginas paginas d)) f = map_of (apuestas_por_fecha d) f
   \<and> map_of (resumen_por_fecha (procesar_paginas paginas d)) f = map_of (resumen_por_fecha d) f"
  by (induction paginas arbitrary: d) (simp_all add: procesar_pagina_otra_fecha)

lemma linea_sin_fecha_ejemplo:
  "py_split (CHR 0x0A) ''Doble (5) 1'' = [''Doble (5) 1'']
   \<and> fechas_de_linea (py_strip ''Doble (5) 1'') = []"
  by code_simp

lemma leer_palermo_ejemplo:
  "apuestas_por_fecha (leer_palermo_desde_pdf [''1/2/26 Doble (5) 1'', ''Doble (7) 2''])
     = [(''1/2/26'', [(1, [(''DOB'', Finite 5)])])]"
  by code_simp

text \<open>
  C10. Every page starts with no current date, whatever the earlier pages left in the
  results \<^verbatim>\<open>d\<close>. The lines of a page that stand before its first date token, bet rows
  included, leave the results as they were: the page gives what its remaining lines give; a
  page with no date token changes nothing. A page changes the entries of a date only when
  the date is a token of that page, so every date that has entries in the final result is a
  token of some page.
\<close>

theorem fecha_actual_por_pagina:
  "((\<forall>linea \<in> set antes. fechas_de_linea (py_strip linea) = []) \<and> py_split (CHR 0x0A) texto = antes @ resto \<longrightarrow>
       procesar_pagina texto d = snd (procesar_lineas resto (None, d)))
   \<and> ((\<forall>linea \<in> set (py_split (CHR 0x0A) texto). fechas_de_linea (py_strip linea) = []) \<longrightarrow>
       procesar_pagina texto d = d)
   \<and> (f \<notin> set (fechas_de_pagina texto) \<longrightarrow>
       map_of (apuestas_por_fecha (procesar_pagina texto d)) f = map_of (apuestas_por_fecha d) f
       \<and> map_of (resumen_por_fecha (procesar_pagina texto d)) f = map_of (resumen_por_fecha d) f)
   \<and> (f \<in> fst ` set (apuestas_por_fecha (leer_palermo_desde_pdf paginas)) \<longrightarrow>
       (\<exists>texto \<in> set paginas. f \<in> set (fechas_de_pagina texto)))"
proof -
  have 1: "(\<forall>linea \<in> set antes. fechas_de_linea (py_strip linea) = []) \<and> py_split (CHR 0x0A) texto = antes @ resto \<longrightarrow>
       procesar_pagina texto d = snd (procesar_lineas resto (None, d))"
    by (simp add: procesar_pagina_def procesar_lineas_append procesar_lineas_sin_fecha)
  have 2: "(\<forall>linea \<in> set (py_split (CHR 0x0A) texto). fechas_de_linea (py_strip linea) = []) \<longrightarrow>
       procesar_pagina texto d = d"
    by (simp add: procesar_pagina_def procesar_lineas_sin_fecha)
  have 4: "f \<in> fst ` set (apuestas_por_fecha (leer_palermo_desde_pdf paginas)) \<longrightarrow>
       (\<exists>texto \<in> set paginas. f \<in> set (fechas_de_pagina texto))"
  proof (rule impI, rule ccontr)
    assume a: "f \<in> fst ` set (apuestas_por_fecha (leer_palermo_desde_pdf paginas))"
      and "\<not> (\<exists>texto \<in> set paginas. f \<in> set (fechas_de_pagina texto))"
    then have "\<forall>texto \<in> set paginas. f \<notin> set (fechas_de_pagina texto)" by simp
    from procesar_paginas_otra_fecha[OF this]
    have "map_of (apuestas_por_fecha (leer_palermo_desde_pdf paginas)) f = None"
      by (simp add: leer_palermo_desde_pdf_def)
    with a show False by (simp add: map_of_eq_None_iff)
  qed
  from 1 2 4 procesar_pagina_otra_fecha[of f texto d] show ?thesis by blast
qed

theorem fecha_actual_por_pagina_witness:
  "procesar_pagina ''Doble (5) 1''
      \<lparr>fechas = [''1/2/26''], apuestas_por_fecha = [(''1/2/26'', [(1, [(''DOB'', Finite 5)])])],
       resumen_por_fecha = []\<rparr>
     = \<lparr>fechas = [''1/2/26''], apuestas_por_fecha = [(''1/2/26'', [(1, [(''DOB'', Finite 5)])])],
        resumen_por_fecha = []\<rparr>
   \<and> apuestas_por_fecha (leer_palermo_desde_pdf [''1/2/26 Doble (5) 1'', ''Doble (7) 2''])
       = [(''1/2/26'', [(1, [(''DOB'', Finite 5)])])]"
proof -
  have h: "\<forall>linea \<in> set (py_split (CHR 0x0A) ''Doble (5) 1''). fechas_de_linea (py_strip linea) = []"
    using linea_sin_fecha_ejemplo by simp
  from fecha_actual_por_pagina[where texto = "''Doble (5) 1''"
      and d = "\<lparr>fechas = [''1/2/26''], apuestas_por_fecha = [(''1/2/26'', [(1, [(''DOB'', Finite 5)])])],
        resumen_por_fecha = []\<rparr>", THEN conjunct2, THEN conjunct1, THEN mp, OF h]
    leer_palermo_ejemplo
  show ?thesis by simp
qed

section \<open>The monetary parser follows the rules on the trimmed token\<close>

lemma es_digito_isdigit: "es_digito c \<Longrightarrow> py_isdigit c"
  by (simp add: es_digito_def py_isdigit_def Let_def)

lemma es_digito_no_espacio: "es_digito c \<Longrightarrow> \<not> py_isspace c"
  by (auto simp: es_digito_def py_isspace_def Let_def)

lemma isdigit_no_espacio: "py_isdigit c \<Longrightarrow> \<not> py_isspace c"
  by (auto simp: py_isdigit_def py_isspace_def Let_def)

lemma seguir_digitos_todos: "list_all es_digito ds \<Longrightarrow> seguir_digitos ds = (ds, [])"
  by (induction ds) simp_all

lemma leer_digitos_todos: "list_all es_digito ds \<Longrightarrow> leer_digitos ds = (ds, [])"
  by (cases ds) (simp_all add: leer_digitos_def seguir_digitos_todos)

lemma py_strip_sin_espacios:
  "s \<noteq> [] \<Longrightarrow> \<not> py_isspace (hd s) \<Longrightarrow> \<not> py_isspace (last s) \<Longrightarrow> py_strip s = s"
proof -
  assume a: "s \<noteq> []" "\<not> py_isspace (hd s)" "\<not> py_isspace (last s)"
  then have 1: "dropWhile py_isspace s = s" by (cases s) simp_all
  from a have "rev s \<noteq> []" "\<not> py_isspace (hd (rev s))" by (simp_all add: hd_rev)
  then have "dropWhile py_isspace (rev s) = rev s" by (cases "rev s") simp_all
  with 1 show ?thesis by (simp add: py_strip_def)
qed

lemma digito_codigo: "es_digito c \<Longrightarrow> c \<noteq> CHR ''-'' \<and> c \<noteq> CHR ''+'' \<and> py_lower_char c = c
    \<and> c \<noteq> CHR ''i'' \<and> c \<noteq> CHR ''n''"
  by (auto simp: es_digito_def py_lower_char_def codigo_de_def Let_def)

lemma py_float_digitos:
  assumes "ds \<noteq> []" "list_all es_digito ds"
  shows "py_float ds = Some (Finite (of_int (int (nat_de_digitos ds))))"
proof -
  from assms have h: "es_digito (hd ds)" "es_digito (last ds)"
    by (auto simp: list_all_iff)
  with assms(1) have s: "py_strip ds = ds"
    by (simp add: py_strip_sin_espacios es_digito_no_espacio)
  from assms(1) h(1) have q: "quitar_signo ds = (False, ds)"
    by (cases ds) (auto simp: quitar_signo_def dest: digito_codigo)
  from assms(1) h(1) have l: "py_lower ds \<noteq> ''inf''" "py_lower ds \<noteq> ''infinity''" "py_lower ds \<noteq> ''nan''"
    by (cases ds; auto simp: py_lower_def dest: digito_codigo)+
  have n: "numero ds = Some (of_int (int (nat_de_digitos ds)))"
    using assms by (simp add: numero_def leer_digitos_todos exponente_def diez_a_la_def nat_de_digitos_def)
  show ?thesis by (simp add: py_float_def s q l n)
qed

lemma seguir_digitos_partes:
  "\<exists>u. s = u @ snd (seguir_digitos s) \<and> (\<forall>c \<in> set u. permitido c)"
proof (induction s rule: seguir_digitos.induct)
  case 1
  then show ?case by simp
next
  case (2 c cs)
  show ?case
  proof (cases "es_digito c")
    case True
    with 2(1) obtain u where "cs = u @ snd (seguir_digitos cs)" "\<forall>c \<in> set u. permitido c"
      by blast
    with True show ?thesis
      by (intro exI[of _ "c # u"]) (auto simp: permitido_def split: prod.splits)
  next
    case False
    show ?thesis
    proof (cases "c = CHR ''_'' \<and> cs \<noteq> [] \<and> es_digito (hd cs)")
      case True
      then obtain d cs' where cs: "cs = d # cs'" "es_digito d" by (cases cs) auto
      with 2(2)[OF False _ cs(1)] True obtain u where
        "cs' = u @ snd (seguir_digitos cs')" "\<forall>c \<in> set u. permitido c"
        by blast
      with True False cs show ?thesis
        by (intro exI[of _ "c # d # u"]) (auto simp: permitido_def split: prod.splits)
    next
      case False
      with \<open>\<not> es_digito c\<close> show ?thesis
        by (intro exI[of _ "[]"]) (auto split: list.splits)
    qed
  qed
qed

lemma leer_digitos_partes:
  "\<exists>u. s = u @ snd (leer_digitos s) \<and> (\<forall>c \<in> set u. permitido c)"
proof (cases s)
  case Nil
  then show ?thesis by (simp add: leer_digitos_def)
next
  case (Cons c cs)
  show ?thesis
  proof (cases "es_digito c")
    case True
    from seguir_digitos_partes[of cs] obtain u where
      "cs = u @ snd (seguir_digitos cs)" "\<forall>c \<in> set u. permitido c" by blast
    with True Cons show ?thesis
      by (intro exI[of _ "c # u"]) (auto simp: leer_digitos_def permitido_def split: prod.splits)
  next
    case False
    with Cons show ?thesis by (intro exI[of _ "[]"]) (simp add: leer_digitos_def)
  qed
qed

lemma leer_digitos_fin:
  "snd (leer_digitos s) = [] \<Longrightarrow> \<forall>c \<in> set s. permitido c"
  using leer_digitos_partes[of s] by auto

lemma quitar_signo_partes: "\<forall>c \<in> set (snd (quitar_signo s)). permitido c \<Longrightarrow> \<forall>c \<in> set s. permitido c"
  by (cases s) (auto simp: quitar_signo_def permitido_def split: if_splits)

lemma exponente_permitido: "exponente s = Some e \<Longrightarrow> \<forall>c \<in> set s. permitido c"
proof (cases s)
  case Nil
  then show ?thesis by simp
next
  case (Cons c r)
  assume a: "exponente s = Some e"
  obtain neg r' where q: "quitar_signo r = (neg, r')" by (cases "quitar_signo r")
  obtain ds resto where l: "leer_digitos r' = (ds, resto)" by (cases "leer_digitos r'")
  have ce: "c = CHR ''e'' \<or> c = CHR ''E''"
  proof (rule ccontr)
    assume "\<not> ?thesis"
    then have "exponente (c # r) = None" by (simp add: exponente_def)
    with a Cons show False by simp
  qed
  then have ex: "exponente (c # r) = (if ds \<noteq> [] \<and> resto = []
                then Some (if neg then - int (nat_de_digitos ds) else int (nat_de_digitos ds))
                else None)"
    unfolding exponente_def by (simp only: list.case if_True q l prod.case Let_def)
  have fin: "resto = []"
  proof (rule ccontr)
    assume "\<not> ?thesis"
    with ex have "exponente (c # r) = None" by simp
    with a Cons show False by simp
  qed
  with l have "snd (leer_digitos r') = []" by simp
  then have "\<forall>c \<in> set r'. permitido c" by (rule leer_digitos_fin)
  with q have "\<forall>c \<in> set (snd (quitar_signo r)). permitido c" by simp
  then have "\<forall>c \<in> set r. permitido c" by (rule quitar_signo_partes)
  moreover from ce have "permitido c" unfolding permitido_def by blast
  ultimately show ?thesis using Cons by simp
qed

lemma numero_exponente:
  assumes "numero s = Some q"
  shows "\<exists>e. exponente (if snd (leer_digitos s) \<noteq> [] \<and> hd (snd (leer_digitos s)) = CHR ''.''
                     then snd (leer_digitos (tl (snd (leer_digitos s)))) else snd (leer_digitos s)) = Some e"
proof -
  obtain ent r1 where l1: "leer_digitos s = (ent, r1)" by (cases "leer_digitos s")
  obtain frac r2 where l2:
    "(if r1 \<noteq> [] \<and> hd r1 = CHR ''.'' then leer_digitos (tl r1) else ([], r1)) = (frac, r2)"
    by (cases "if r1 \<noteq> [] \<and> hd r1 = CHR ''.'' then leer_digitos (tl r1) else ([], r1)")
  have n: "numero s = (if ent = [] \<and> frac = [] then None
         else (case exponente r2 of
                 None \<Rightarrow> None
               | Some e \<Rightarrow>
                   Some ((of_int (int (nat_de_digitos ent)) + of_int (int (nat_de_digitos frac)) / 10 ^ length frac)
                         * diez_a_la e)))"
    unfolding numero_def by (simp only: l1 l2 prod.case Let_def)
  have "exponente r2 \<noteq> None"
  proof
    assume "exponente r2 = None"
    with n have "numero s = None" by simp
    with assms show False by simp
  qed
  then obtain e where e: "exponente r2 = Some e" by blast
  have r2: "r2 = (if r1 \<noteq> [] \<and> hd r1 = CHR ''.'' then snd (leer_digitos (tl r1)) else r1)"
  proof (cases "r1 \<noteq> [] \<and> hd r1 = CHR ''.''")
    case True
    with l2 have "leer_digitos (tl r1) = (frac, r2)" by simp
    with True show ?thesis by simp
  next
    case False
    then have c: "(if r1 \<noteq> [] \<and> hd r1 = CHR ''.'' then snd (leer_digitos (tl r1)) else r1) = r1"
      by (rule if_not_P)
    from l2 have "([]::string, r1) = (frac, r2)" unfolding if_not_P[OF False] .
    then have "r2 = r1" by simp
    with c show ?thesis by simp
  qed
  from l1 have s1: "snd (leer_digitos s) = r1" by simp
  from e show ?thesis unfolding s1 r2[symmetric] by blast
qed

lemma numero_permitido:
  assumes "numero s = Some q"
  shows "\<forall>c \<in> set s. permitido c"
proof -
  obtain u where u: "s = u @ snd (leer_digitos s)" "\<forall>c \<in> set u. permitido c"
    using leer_digitos_partes[of s] by blast
  let ?r1 = "snd (leer_digitos s)"
  have r1: "\<forall>c \<in> set ?r1. permitido c"
  proof (cases "?r1 \<noteq> [] \<and> hd ?r1 = CHR ''.''")
    case True
    then obtain t where t: "?r1 = CHR ''.'' # t" by (cases ?r1) auto
    obtain w where w: "t = w @ snd (leer_digitos t)" "\<forall>c \<in> set w. permitido c"
      using leer_digitos_partes[of t] by blast
    from numero_exponente[OF assms] True t obtain e where "exponente (snd (leer_digitos t)) = Some e"
      by auto
    then have "\<forall>c \<in> set (snd (leer_digitos t)). permitido c" by (rule exponente_permitido)
    with w(2) have "\<forall>c \<in> set (w @ snd (leer_digitos t)). permitido c" by auto
    with w(1) have "\<forall>c \<in> set t. permitido c" by simp
    moreover have "permitido (CHR ''.'')" by (simp add: permitido_def)
    ultimately show ?thesis using t by simp
  next
    case False
    with numero_exponente[OF assms] obtain e where "exponente ?r1 = Some e"
      by auto
    then show ?thesis by (rule exponente_permitido)
  qed
  with u(2) have "\<forall>c \<in> set (u @ ?r1). permitido c" by auto
  with u(1) show ?thesis by simp
qed

lemma py_split_no_vacio: "py_split sep s \<noteq> []"
  by (induction s) (auto split: list.splits)

lemma concat_py_split: "concat (py_split sep s) = filter (\<lambda>c. c \<noteq> sep) s"
proof (induction s)
  case Nil
  show ?case by simp
next
  case (Cons c cs)
  show ?case
  proof (cases "c = sep")
    case True
    with Cons show ?thesis by simp
  next
    case False
    obtain p ps where p: "py_split sep cs = p # ps"
      using py_split_no_vacio[of sep cs] by (cases "py_split sep cs") auto
    with Cons have "filter (\<lambda>c. c \<noteq> sep) cs = p @ concat ps" by simp
    with False p show ?thesis by simp
  qed
qed

lemma isdigit_permitido: "py_isdigit c \<Longrightarrow> permitido c \<Longrightarrow> es_digito c"
  by (auto simp: py_isdigit_def permitido_def es_digito_def codigo_de_def Let_def)

lemma isdigit_codigo: "py_isdigit c \<Longrightarrow> c \<noteq> CHR ''-'' \<and> c \<noteq> CHR ''+'' \<and> py_lower_char c = c
    \<and> c \<noteq> CHR ''i'' \<and> c \<noteq> CHR ''n''"
  by (auto simp: py_isdigit_def py_lower_char_def codigo_de_def Let_def)

lemma py_float_isdigit:
  assumes "list_all py_isdigit t" "\<not> list_all es_digito t"
  shows "py_float t = None"
proof -
  from assms(2) have ne: "t \<noteq> []" by auto
  with assms(1) have h: "py_isdigit (hd t)" "py_isdigit (last t)"
    by (auto simp: list_all_iff)
  with ne have s: "py_strip t = t"
    by (simp add: py_strip_sin_espacios isdigit_no_espacio)
  from ne h(1) have q: "quitar_signo t = (False, t)"
    by (cases t) (auto simp: quitar_signo_def dest: isdigit_codigo)
  from ne h(1) have l: "py_lower t \<noteq> ''inf''" "py_lower t \<noteq> ''infinity''" "py_lower t \<noteq> ''nan''"
    by (cases t; auto simp: py_lower_def dest: isdigit_codigo)+
  have n: "numero t = None"
  proof (rule ccontr)
    assume "numero t \<noteq> None"
    then obtain q where "numero t = Some q" by blast
    then have "\<forall>c \<in> set t. permitido c" by (rule numero_permitido)
    with assms(1) have "\<forall>c \<in> set t. es_digito c"
      by (auto simp: list_all_iff intro: isdigit_permitido)
    with assms(2) show False by (simp add: list_all_iff)
  qed
  show ?thesis by (simp add: py_float_def s q l n)
qed

lemma partes_digitos:
  "list_all (\<lambda>p. p \<noteq> [] \<and> list_all P p) (py_split sep s) \<Longrightarrow> list_all P (filter (\<lambda>c. c \<noteq> sep) s)"
proof -
  assume "list_all (\<lambda>p. p \<noteq> [] \<and> list_all P p) (py_split sep s)"
  then have "list_all P (concat (py_split sep s))" by (auto simp: list_all_iff)
  then show ?thesis by (simp only: concat_py_split)
qed

lemma partes_no_vacias:
  "list_all (\<lambda>p. p \<noteq> [] \<and> list_all P p) (py_split sep s) \<Longrightarrow> filter (\<lambda>c. c \<noteq> sep) s \<noteq> []"
proof -
  assume a: "list_all (\<lambda>p. p \<noteq> [] \<and> list_all P p) (py_split sep s)"
  obtain p ps where p: "py_split sep s = p # ps"
    using py_split_no_vacio[of sep s] by (cases "py_split sep s") auto
  with a have "p \<noteq> []" by simp
  with p have "concat (py_split sep s) \<noteq> []" by simp
  then show ?thesis unfolding concat_py_split .
qed

lemma py_split_dos: "sep \<in> set s \<Longrightarrow> 2 \<le> length (py_split sep s)"
proof (induction s)
  case Nil
  then show ?case by simp
next
  case (Cons c cs)
  obtain p ps where p: "py_split sep cs = p # ps"
    using py_split_no_vacio[of sep cs] by (cases "py_split sep cs") auto
  show ?case
  proof (cases "c = sep")
    case True
    with p show ?thesis by simp
  next
    case False
    with Cons.prems have "sep \<in> set cs" by simp
    then have "2 \<le> length (py_split sep cs)" by (rule Cons.IH)
    with False p show ?thesis by simp
  qed
qed

lemma partes_digitos_conv:
  assumes "list_all (\<lambda>p. p \<noteq> [] \<and> list_all py_isdigit p) (py_split sep s)"
    and "list_all es_digito (filter (\<lambda>c. c \<noteq> sep) s)"
  shows "list_all (\<lambda>p. p \<noteq> [] \<and> list_all es_digito p) (py_split sep s)"
proof -
  from assms(2) have "list_all es_digito (concat (py_split sep s))" by (simp only: concat_py_split)
  with assms(1) show ?thesis by (auto simp: list_all_iff)
qed

lemma monto_igual_reglas: "parsear_monto_str v = monto_segun_reglas (py_strip v)"
proof -
  let ?s = "py_strip v"
  let ?f = "filter (\<lambda>c. c \<noteq> CHR ''.'') ?s"
  let ?C = "list_all (\<lambda>p. p \<noteq> [] \<and> list_all py_isdigit p) (py_split (CHR ''.'') ?s)"
  let ?S = "list_all (\<lambda>p. p \<noteq> [] \<and> list_all es_digito p) (py_split (CHR ''.'') ?s)"
  let ?L = "length (last (py_split (CHR ''.'') ?s)) = 3"
  consider (vacio) "?s = []" | (coma) "?s \<noteq> []" "CHR '','' \<in> set ?s"
    | (punto) "?s \<noteq> []" "CHR '','' \<notin> set ?s" "CHR ''.'' \<in> set ?s"
    | (plano) "?s \<noteq> []" "CHR '','' \<notin> set ?s" "CHR ''.'' \<notin> set ?s" by blast
  then show ?thesis
  proof cases
    case vacio
    then show ?thesis by (simp add: parsear_monto_str_def monto_segun_reglas_def)
  next
    case coma
    then show ?thesis by (simp add: parsear_monto_str_def monto_segun_reglas_def)
  next
    case plano
    then show ?thesis by (simp add: parsear_monto_str_def monto_segun_reglas_def)
  next
    case punto
    from punto(3) have dos: "2 \<le> length (py_split (CHR ''.'') ?s)" by (rule py_split_dos)
    from punto dos have p: "parsear_monto_str v =
        (if ?C \<and> ?L then (case py_float ?f of Some x \<Rightarrow> Some x | None \<Rightarrow> py_float ?s) else py_float ?s)"
      by (simp add: parsear_monto_str_def Let_def)
    from punto have m: "monto_segun_reglas ?s = (if ?S \<and> ?L then py_float ?f else py_float ?s)"
      by (simp add: monto_segun_reglas_def)
    show ?thesis
    proof (cases "?S \<and> ?L")
      case True
      then have "?C" by (auto simp: list_all_iff intro: es_digito_isdigit)
      moreover from True have "py_float ?f = Some (Finite (of_int (int (nat_de_digitos ?f))))"
        by (intro py_float_digitos partes_no_vacias[of es_digito] partes_digitos) simp_all
      ultimately show ?thesis using True p m by simp
    next
      case False
      show ?thesis
      proof (cases "?C \<and> ?L")
        case True
        with False have "\<not> ?S" by simp
        with True have "\<not> list_all es_digito ?f" using partes_digitos_conv by blast
        moreover from True have "list_all py_isdigit ?f" by (intro partes_digitos) simp
        ultimately have "py_float ?f = None" by (intro py_float_isdigit)
        moreover have "monto_segun_reglas ?s = py_float ?s" unfolding m by (rule if_not_P[OF False])
        moreover have "parsear_monto_str v = (case py_float ?f of Some x \<Rightarrow> Some x | None \<Rightarrow> py_float ?s)"
          unfolding p by (rule if_P[OF True])
        ultimately show ?thesis by simp
      next
        case c: False
        have "monto_segun_reglas ?s = py_float ?s" unfolding m by (rule if_not_P[OF False])
        moreover have "parsear_monto_str v = py_float ?s" unfolding p by (rule if_not_P[OF c])
        ultimately show ?thesis by simp
      qed
    qed
  qed
qed

text \<open>
  C2. The parser trims the token first, and the rules read the trimmed token. An empty one
  is unparseable. With a comma, the periods are removed and the comma becomes the decimal
  point. Otherwise, with a period, when every period-separated segment is a non-empty run
  of digits and the last one has three of them, the periods are removed and the result is
  the integer the remaining digits spell; any other token with a period, and every token
  without separators, is parsed as it is. The result is what \<^verbatim>\<open>float\<close> gives on the
  transformed text, None when it fails.
\<close>

theorem parsear_monto_str_reglas:
  "parsear_monto_str v = monto_segun_reglas (py_strip v)
   \<and> (CHR '','' \<notin> set (py_strip v) \<and> CHR ''.'' \<in> set (py_strip v)
        \<and> list_all (\<lambda>p. p \<noteq> [] \<and> list_all es_digito p) (py_split (CHR ''.'') (py_strip v))
        \<and> length (last (py_split (CHR ''.'') (py_strip v))) = 3 \<longrightarrow>
         parsear_monto_str v
           = Some (Finite (of_int (int (nat_de_digitos (filter (\<lambda>c. c \<noteq> CHR ''.'') (py_strip v)))))))
   \<and> parsear_monto_str ''5.000'' = Some (Finite 5000)
   \<and> parsear_monto_str ''1000,50'' = Some (Finite (2001 / 2))
   \<and> parsear_monto_str ''1.000,50'' = Some (Finite (2001 / 2))
   \<and> parsear_monto_str ''5.5'' = Some (Finite (11 / 2))
   \<and> parsear_monto_str '''' = None"
proof -
  let ?s = "py_strip v"
  let ?f = "filter (\<lambda>c. c \<noteq> CHR ''.'') ?s"
  have 1: "parsear_monto_str v = monto_segun_reglas ?s" by (rule monto_igual_reglas)
  have 2: "CHR '','' \<notin> set ?s \<and> CHR ''.'' \<in> set ?s
        \<and> list_all (\<lambda>p. p \<noteq> [] \<and> list_all es_digito p) (py_split (CHR ''.'') ?s)
        \<and> length (last (py_split (CHR ''.'') ?s)) = 3 \<longrightarrow>
         parsear_monto_str v = Some (Finite (of_int (int (nat_de_digitos ?f))))"
  proof
    assume a: "CHR '','' \<notin> set ?s \<and> CHR ''.'' \<in> set ?s
        \<and> list_all (\<lambda>p. p \<noteq> [] \<and> list_all es_digito p) (py_split (CHR ''.'') ?s)
        \<and> length (last (py_split (CHR ''.'') ?s)) = 3"
    then have ne: "?s \<noteq> []" by auto
    from a have "py_float ?f = Some (Finite (of_int (int (nat_de_digitos ?f))))"
      by (intro py_float_digitos partes_no_vacias[of es_digito] partes_digitos) simp_all
    with a ne show "parsear_monto_str v = Some (Finite (of_int (int (nat_de_digitos ?f))))"
      unfolding 1 by (simp add: monto_segun_reglas_def)
  qed
  have 3: "parsear_monto_str ''5.000'' = Some (Finite 5000)" by code_simp
  have 4: "parsear_monto_str ''1000,50'' = Some (Finite (2001 / 2))" by code_simp
  have 5: "parsear_monto_str ''1.000,50'' = Some (Finite (2001 / 2))" by code_simp
  have 6: "parsear_monto_str ''5.5'' = Some (Finite (11 / 2))" by code_simp
  have 7: "parsear_monto_str '''' = None" by code_simp
  from 1 2 3 4 5 6 7 show ?thesis by blast
qed

lemma reglas_1_234:
  "CHR '','' \<notin> set (py_strip ''1.234'') \<and> CHR ''.'' \<in> set (py_strip ''1.234'')
   \<and> list_all (\<lambda>p. p \<noteq> [] \<and> list_all es_digito p) (py_split (CHR ''.'') (py_strip ''1.234''))
   \<and> length (last (py_split (CHR ''.'') (py_strip ''1.234''))) = 3
   \<and> int (nat_de_digitos (filter (\<lambda>c. c \<noteq> CHR ''.'') (py_strip ''1.234''))) = 1234"
  by code_simp

theorem parsear_monto_str_reglas_witness:
  "parsear_monto_str ''1.234'' = Some (Finite 1234) \<and> parsear_monto_str ''5.5'' = Some (Finite (11 / 2))"
proof -
  from parsear_monto_str_reglas[of "''1.234''", THEN conjunct2] reglas_1_234
  have "parsear_monto_str ''1.234'' = Some (Finite 1234)" by simp
  moreover from parsear_monto_str_reglas[of "''1.234''"]
  have "parsear_monto_str ''5.5'' = Some (Finite (11 / 2))" by blast
  ultimately show ?thesis by simp
qed

theorem parsear_monto_str_counterexample:
  "parsear_monto_str '' 5.000'' = Some (Finite 5000) \<and> monto_segun_reglas '' 5.000'' = Some (Finite 5)"
  by code_simp

section \<open>The matcher finds what the patterns describe\<close>

inductive_cases acepta_ClsE: "acepta s (Cls P) i j"
inductive_cases acepta_VacioE: "acepta s Vacio i j"
inductive_cases acepta_SecE: "acepta s (Sec a b) i j"
inductive_cases acepta_AltE: "acepta s (Alt a b) i j"
inductive_cases acepta_StarE: "acepta s (Star a) i j"
inductive_cases acepta_StarLE: "acepta s (StarL a) i j"
inductive_cases acepta_GrupoE: "acepta s (Grupo n a) i j"
inductive_cases acepta_BolE: "acepta s Bol i j"
inductive_cases acepta_BordeE: "acepta s Borde i j"

lemma acepta_cota: "acepta s r i j \<Longrightarrow> i \<le> j \<and> (i \<le> length s \<longrightarrow> j \<le> length s)"
  by (induction rule: acepta.induct) auto

lemma iterar_contiene: "st \<in> set (iterar f b n st)"
  by (cases n) auto

lemma iterar_correcto:
  assumes f: "\<And>st st'. st' \<in> set (f st) \<Longrightarrow> acepta s a (fst st) (fst st')"
  shows "st' \<in> set (iterar f b n st) \<Longrightarrow>
         acepta s (Star a) (fst st) (fst st') \<and> acepta s (StarL a) (fst st) (fst st')"
proof (induction n arbitrary: st)
  case 0
  then show ?case by (auto intro: acepta.intros)
next
  case (Suc n)
  from Suc.prems have "st' = st \<or> (\<exists>m \<in> set (f st). fst st < fst m \<and> st' \<in> set (iterar f b n m))"
    by (auto split: if_splits)
  then show ?case
  proof
    assume "st' = st"
    then show ?thesis by (auto intro: acepta.intros)
  next
    assume "\<exists>m \<in> set (f st). fst st < fst m \<and> st' \<in> set (iterar f b n m)"
    then obtain m where m: "m \<in> set (f st)" "fst st < fst m" "st' \<in> set (iterar f b n m)" by blast
    from Suc.IH[OF m(3)] f[OF m(1)] m(2) show ?thesis
      by (auto intro: acepta.intros)
  qed
qed

lemma emparejar_correcto:
  "st' \<in> set (emparejar r s st) \<Longrightarrow> acepta s r (fst st) (fst st')"
proof (induction r arbitrary: st st')
  case (Cls P)
  then show ?case by (auto split: if_splits intro: acepta.intros)
next
  case Vacio
  then show ?case by (auto intro: acepta.intros)
next
  case (Sec a b)
  from Sec.prems obtain m where "m \<in> set (emparejar a s st)" "st' \<in> set (emparejar b s m)" by auto
  with Sec.IH show ?case by (blast intro: acepta.intros)
next
  case (Alt a b)
  from Alt.prems have "st' \<in> set (emparejar a s st) \<or> st' \<in> set (emparejar b s st)" by simp
  with Alt.IH show ?case by (blast intro: acepta.intros)
next
  case (Star a)
  from iterar_correcto[of "emparejar a s" s a st' True "Suc (length s)" st] Star show ?case
    by simp
next
  case (StarL a)
  from iterar_correcto[of "emparejar a s" s a st' False "Suc (length s)" st] StarL show ?case
    by simp
next
  case (Grupo n a)
  from Grupo.prems obtain m where "m \<in> set (emparejar a s st)" "fst st' = fst m" by auto
  with Grupo.IH[of m st] show ?case by (simp add: acepta.intros)
next
  case Bol
  then show ?case by (auto split: if_splits intro: acepta.intros)
next
  case Borde
  then show ?case by (auto split: if_splits intro: acepta.intros)
qed

lemma estrella_paso:
  assumes "acepta s (Star a) i j \<or> acepta s (StarL a) i j"
  shows "j = i \<or> (\<exists>k. acepta s a i k \<and> i < k \<and> (acepta s (Star a) k j \<or> acepta s (StarL a) k j))"
  using assms by (auto elim: acepta_StarE acepta_StarLE)

lemma iterar_completo:
  assumes f: "\<And>i k g. acepta s a i k \<Longrightarrow> i \<le> length s \<Longrightarrow> \<exists>g'. (k, g') \<in> set (f (i, g))"
  shows "acepta s (Star a) i j \<or> acepta s (StarL a) i j \<Longrightarrow> i \<le> length s \<Longrightarrow> length s - i < n
         \<Longrightarrow> \<exists>g'. (j, g') \<in> set (iterar f b n (i, g))"
proof (induction n arbitrary: i g)
  case 0
  then show ?case by simp
next
  case (Suc n)
  from estrella_paso[OF Suc.prems(1)] show ?case
  proof
    assume "j = i"
    then show ?thesis using iterar_contiene[of "(i, g)" f b "Suc n"] by blast
  next
    assume "\<exists>k. acepta s a i k \<and> i < k \<and> (acepta s (Star a) k j \<or> acepta s (StarL a) k j)"
    then obtain k where k: "acepta s a i k" "i < k" "acepta s (Star a) k j \<or> acepta s (StarL a) k j"
      by blast
    from acepta_cota[OF k(1)] Suc.prems(2) have kl: "k \<le> length s" by simp
    from f[OF k(1) Suc.prems(2)] obtain g' where g': "(k, g') \<in> set (f (i, g))" by blast
    from k(2) kl Suc.prems(3) have "length s - k < n" by arith
    from Suc.IH[OF k(3) kl this] obtain g'' where g'': "(j, g'') \<in> set (iterar f b n (k, g'))" by blast
    from g' k(2) have "(k, g') \<in> set (filter (\<lambda>st'. fst (i, g) < fst st') (f (i, g)))" by simp
    with g'' have "(j, g'') \<in> set (concat (map (iterar f b n)
        (filter (\<lambda>st'. fst (i, g) < fst st') (f (i, g)))))"
      unfolding set_concat by (intro UN_I[of "iterar f b n (k, g')"]) auto
    then have "(j, g'') \<in> set (iterar f b (Suc n) (i, g))" by (cases b) simp_all
    then show ?thesis by blast
  qed
qed

lemma emparejar_completo:
  "acepta s r i j \<Longrightarrow> i \<le> length s \<Longrightarrow> \<exists>g'. (j, g') \<in> set (emparejar r s (i, g))"
proof (induction r arbitrary: i j g)
  case (Cls P)
  then show ?case by (auto elim: acepta_ClsE)
next
  case Vacio
  then show ?case by (auto elim: acepta_VacioE)
next
  case (Sec a b)
  from Sec.prems(1) obtain k where k: "acepta s a i k" "acepta s b k j" by (auto elim: acepta_SecE)
  from Sec.IH(1)[OF k(1) Sec.prems(2)] obtain g1 where g1: "(k, g1) \<in> set (emparejar a s (i, g))"
    by blast
  from acepta_cota[OF k(1)] Sec.prems(2) have "k \<le> length s" by simp
  from Sec.IH(2)[OF k(2) this] obtain g2 where "(j, g2) \<in> set (emparejar b s (k, g1))" by blast
  with g1 show ?case by auto
next
  case (Alt a b)
  from Alt.prems(1) have "acepta s a i j \<or> acepta s b i j" by (auto elim: acepta_AltE)
  with Alt.IH Alt.prems(2) show ?case by fastforce
next
  case (Star a)
  from Star.prems show ?case
    using iterar_completo[of s a "emparejar a s" i j "Suc (length s)" True g] Star.IH by simp
next
  case (StarL a)
  from StarL.prems show ?case
    using iterar_completo[of s a "emparejar a s" i j "Suc (length s)" False g] StarL.IH by simp
next
  case (Grupo n a)
  from Grupo.prems(1) have "acepta s a i j" by (auto elim: acepta_GrupoE)
  from Grupo.IH[OF this Grupo.prems(2)] obtain g' where "(j, g') \<in> set (emparejar a s (i, g))" by blast
  then have "(j, (n, i, j) # g') \<in> set (emparejar (Grupo n a) s (i, g))" by force
  then show ?case by blast
next
  case Bol
  then show ?case by (auto elim: acepta_BolE)
next
  case Borde
  then show ?case by (auto elim: acepta_BordeE)
qed

lemma emparejar_acepta:
  "i \<le> length s \<Longrightarrow> (\<exists>g'. (j, g') \<in> set (emparejar r s (i, g))) \<longleftrightarrow> acepta s r i j"
  using emparejar_correcto[of _ r s "(i, g)"] emparejar_completo[of s r i j g] by fastforce

lemma coincidir_en_None: "i \<le> length s \<Longrightarrow> coincidir_en r s i = None \<longleftrightarrow> (\<forall>j. \<not> acepta s r i j)"
proof -
  assume i: "i \<le> length s"
  have "coincidir_en r s i = None \<longleftrightarrow> emparejar r s (i, []) = []"
    by (simp add: coincidir_en_def split: list.splits)
  also have "\<dots> \<longleftrightarrow> (\<forall>j. \<not> (\<exists>g'. (j, g') \<in> set (emparejar r s (i, []))))"
    by (cases "emparejar r s (i, [])") auto
  also have "\<dots> \<longleftrightarrow> (\<forall>j. \<not> acepta s r i j)" using emparejar_acepta[OF i] by simp
  finally show ?thesis .
qed

lemma buscar_desde_None:
  "buscar_desde r s cands = None \<longleftrightarrow> (\<forall>i \<in> set cands. coincidir_en r s i = None)"
  by (induction cands) (auto split: option.splits)

lemma re_search_acepta:
  "re_search r s \<noteq> None \<longleftrightarrow> (\<exists>i j. i \<le> length s \<and> acepta s r i j)"
proof -
  have "re_search r s = None \<longleftrightarrow> (\<forall>i \<le> length s. coincidir_en r s i = None)"
    by (auto simp: re_search_def buscar_desde_None less_Suc_eq_le)
  also have "\<dots> \<longleftrightarrow> (\<forall>i \<le> length s. \<forall>j. \<not> acepta s r i j)"
    using coincidir_en_None by blast
  finally have "re_search r s = None \<longleftrightarrow> (\<forall>i \<le> length s. \<forall>j. \<not> acepta s r i j)" .
  then show ?thesis by auto
qed

lemma length_subcadena: "i \<le> j \<Longrightarrow> j \<le> length s \<Longrightarrow> length (subcadena s i j) = j - i"
  by (simp add: subcadena_def)

lemma subcadena_vacia: "subcadena s i i = []"
  by (simp add: subcadena_def)

lemma subcadena_append:
  "i \<le> k \<Longrightarrow> k \<le> j \<Longrightarrow> j \<le> length s \<Longrightarrow> subcadena s i j = subcadena s i k @ subcadena s k j"
proof -
  assume a: "i \<le> k" "k \<le> j" "j \<le> length s"
  then have "j - i = (k - i) + (j - k)" by simp
  then have "take (j - i) (drop i s) = take (k - i) (drop i s) @ take (j - k) (drop (k - i) (drop i s))"
    by (simp only: take_add)
  with a show ?thesis by (simp add: subcadena_def)
qed

lemma subcadena_partes:
  assumes "subcadena s i j = y @ z" "i \<le> j" "j \<le> length s"
  shows "i + length y \<le> j \<and> subcadena s i (i + length y) = y \<and> subcadena s (i + length y) j = z"
proof -
  from assms have l: "length y + length z = j - i"
    using length_subcadena[of i j s] by simp
  then have k: "i \<le> i + length y" "i + length y \<le> j" using assms(2) by simp_all
  from subcadena_append[OF k assms(3)] assms(1)
  have e: "subcadena s i (i + length y) @ subcadena s (i + length y) j = y @ z" by simp
  from k assms(3) have "length (subcadena s i (i + length y)) = length y"
    by (simp add: length_subcadena)
  with e show ?thesis using k by simp
qed

lemma subcadena_Suc: "i < length s \<Longrightarrow> subcadena s i (Suc i) = [s ! i]"
  by (simp add: subcadena_def take_Suc_conv_app_nth hd_drop_conv_nth take_Suc)

lemma describe_igual: "describe r G \<Longrightarrow> (\<And>x. G x = G' x) \<Longrightarrow> describe r G'"
  by (simp add: describe_def)

lemma describe_Cls: "describe (Cls P) (\<lambda>x. \<exists>c. x = [c] \<and> P c)"
  unfolding describe_def
proof (intro allI impI iffI)
  fix s i j
  assume "i \<le> length s" "acepta s (Cls P) i j"
  then have "i < length s" "P (s ! i)" "j = Suc i" by (auto elim: acepta_ClsE)
  then show "i \<le> j \<and> j \<le> length s \<and> (\<exists>c. subcadena s i j = [c] \<and> P c)"
    by (simp add: subcadena_Suc)
next
  fix s i j
  assume i: "i \<le> length s" and a: "i \<le> j \<and> j \<le> length s \<and> (\<exists>c. subcadena s i j = [c] \<and> P c)"
  then obtain c where c: "subcadena s i j = [c]" "P c" by blast
  with a length_subcadena[of i j s] have j: "j = Suc i" by simp
  with a have il: "i < length s" by simp
  with c j have "P (s ! i)" by (simp add: subcadena_Suc)
  with il j show "acepta s (Cls P) i j" by (simp add: acepta.intros)
qed

lemma describe_Vacio: "describe Vacio (\<lambda>x. x = [])"
  unfolding describe_def
proof (intro allI impI iffI)
  fix s i j
  assume "i \<le> length s" "acepta s Vacio i j"
  then show "i \<le> j \<and> j \<le> length s \<and> subcadena s i j = []"
    by (auto elim: acepta_VacioE simp: subcadena_vacia)
next
  fix s i j
  assume "i \<le> length s" "i \<le> j \<and> j \<le> length s \<and> subcadena s i j = []"
  with length_subcadena[of i j s] have "j = i" by simp
  then show "acepta s Vacio i j" by (simp add: acepta.intros)
qed

lemma describe_Sec:
  assumes a: "describe a Ga" and b: "describe b Gb"
  shows "describe (Sec a b) (\<lambda>x. \<exists>y z. x = y @ z \<and> Ga y \<and> Gb z)"
  unfolding describe_def
proof (intro allI impI iffI)
  fix s i j
  assume i: "i \<le> length s" and "acepta s (Sec a b) i j"
  then obtain k where k: "acepta s a i k" "acepta s b k j" by (auto elim: acepta_SecE)
  from a i k(1) have 1: "i \<le> k" "k \<le> length s" "Ga (subcadena s i k)" by (simp_all add: describe_def)
  from b 1(2) k(2) have 2: "k \<le> j" "j \<le> length s" "Gb (subcadena s k j)" by (simp_all add: describe_def)
  from subcadena_append[OF 1(1) 2(1) 2(2)] 1 2
  show "i \<le> j \<and> j \<le> length s \<and> (\<exists>y z. subcadena s i j = y @ z \<and> Ga y \<and> Gb z)" by auto
next
  fix s i j
  assume i: "i \<le> length s" and h: "i \<le> j \<and> j \<le> length s \<and> (\<exists>y z. subcadena s i j = y @ z \<and> Ga y \<and> Gb z)"
  then obtain y z where yz: "subcadena s i j = y @ z" "Ga y" "Gb z" by blast
  from h have ij: "i \<le> j" "j \<le> length s" by simp_all
  let ?k = "i + length y"
  from subcadena_partes[OF yz(1) ij] have p: "?k \<le> j" "subcadena s i ?k = y" "subcadena s ?k j = z"
    by simp_all
  from p(1) ij have kl: "?k \<le> length s" by simp
  from a i kl p(2) yz(2) have "acepta s a i ?k" by (simp add: describe_def)
  moreover from b kl p ij yz(3) have "acepta s b ?k j" by (simp add: describe_def)
  ultimately show "acepta s (Sec a b) i j" by (rule acepta.intros)
qed

lemma describe_Alt:
  assumes a: "describe a Ga" and b: "describe b Gb"
  shows "describe (Alt a b) (\<lambda>x. Ga x \<or> Gb x)"
  unfolding describe_def
proof (intro allI impI)
  fix s :: string and i j
  assume i: "i \<le> length s"
  have "acepta s (Alt a b) i j \<longleftrightarrow> acepta s a i j \<or> acepta s b i j"
    by (auto elim: acepta_AltE intro: acepta.intros)
  with a b i show "acepta s (Alt a b) i j \<longleftrightarrow> i \<le> j \<and> j \<le> length s \<and> (Ga (subcadena s i j) \<or> Gb (subcadena s i j))"
    by (auto simp: describe_def)
qed

lemma describe_Grupo:
  assumes a: "describe a G"
  shows "describe (Grupo n a) G"
proof -
  have "\<And>s i j. acepta s (Grupo n a) i j \<longleftrightarrow> acepta s a i j"
    by (auto elim: acepta_GrupoE intro: acepta.intros)
  with a show ?thesis by (simp add: describe_def)
qed

lemma subcadena_Cons: "i < j \<Longrightarrow> j \<le> length s \<Longrightarrow> subcadena s i j = s ! i # subcadena s (Suc i) j"
  using subcadena_append[of i "Suc i" j s] by (simp add: subcadena_Suc)

lemma estrella_Cls_ida:
  "acepta s r i j \<Longrightarrow> r = Star (Cls P) \<Longrightarrow> i \<le> length s
     \<Longrightarrow> i \<le> j \<and> j \<le> length s \<and> list_all P (subcadena s i j)"
proof (induction rule: acepta.induct)
  case (acepta_Star0 a i)
  then show ?case by (simp add: subcadena_vacia)
next
  case (acepta_Star1 a i k j)
  from acepta_Star1.prems(1) have a: "a = Cls P" by simp
  with acepta_Star1.hyps(1) have k: "i < length s" "P (s ! i)" "k = Suc i" by (auto elim: acepta_ClsE)
  from k acepta_Star1.IH(2)[OF acepta_Star1.prems(1)]
  have r: "k \<le> j" "j \<le> length s" "list_all P (subcadena s k j)" by simp_all
  from k r have "i < j" by simp
  from subcadena_Cons[OF this r(2)] k r show ?case by simp
qed simp_all

lemma estrella_Cls_vuelta:
  "n = j - i \<Longrightarrow> i \<le> j \<Longrightarrow> j \<le> length s \<Longrightarrow> list_all P (subcadena s i j)
     \<Longrightarrow> acepta s (Star (Cls P)) i j"
proof (induction n arbitrary: i)
  case 0
  then have "j = i" by simp
  then show ?case by (simp add: acepta.intros)
next
  case (Suc n)
  then have ij: "i < j" by simp
  from subcadena_Cons[OF ij Suc.prems(3)] Suc.prems(4)
  have p: "P (s ! i)" "list_all P (subcadena s (Suc i) j)" by simp_all
  from ij Suc.prems(3) have il: "i < length s" by simp
  from il p(1) have 1: "acepta s (Cls P) i (Suc i)" by (rule acepta.intros)
  from Suc.prems(1) ij have "n = j - Suc i" "Suc i \<le> j" by simp_all
  from Suc.IH[OF this Suc.prems(3) p(2)] have 2: "acepta s (Star (Cls P)) (Suc i) j" .
  from 1 _ 2 show ?case by (rule acepta.intros) simp
qed

lemma describe_Star_Cls: "describe (Star (Cls P)) (list_all P)"
  unfolding describe_def
proof (intro allI impI iffI)
  fix s i j
  assume "i \<le> length s" "acepta s (Star (Cls P)) i j"
  then show "i \<le> j \<and> j \<le> length s \<and> list_all P (subcadena s i j)"
    using estrella_Cls_ida[of s "Star (Cls P)" i j P] by simp
next
  fix s i j
  assume "i \<le> length s" "i \<le> j \<and> j \<le> length s \<and> list_all P (subcadena s i j)"
  then show "acepta s (Star (Cls P)) i j"
    using estrella_Cls_vuelta[of "j - i" j i s P] by simp
qed

lemma describe_Plus_Cls: "describe (Plus (Cls P)) (\<lambda>x. x \<noteq> [] \<and> list_all P x)"
proof -
  have "describe (Plus (Cls P)) (\<lambda>x. \<exists>y z. x = y @ z \<and> (\<exists>c. y = [c] \<and> P c) \<and> list_all P z)"
    unfolding Plus_def by (rule describe_Sec[OF describe_Cls describe_Star_Cls])
  moreover have "\<And>x. (\<exists>y z. x = y @ z \<and> (\<exists>c. y = [c] \<and> P c) \<and> list_all P z) = (x \<noteq> [] \<and> list_all P x)"
  proof -
    fix x :: string
    show "(\<exists>y z. x = y @ z \<and> (\<exists>c. y = [c] \<and> P c) \<and> list_all P z) = (x \<noteq> [] \<and> list_all P x)"
    proof (cases x)
      case Nil
      then show ?thesis by simp
    next
      case (Cons a l)
      have "P a \<and> list_all P l \<Longrightarrow> \<exists>y z. a # l = y @ z \<and> (\<exists>c. y = [c] \<and> P c) \<and> list_all P z"
        by (intro exI[of _ "[a]"] exI[of _ l]) simp
      with Cons show ?thesis by auto
    qed
  qed
  ultimately show ?thesis by (rule describe_igual)
qed

lemma describe_Opt_Car: "describe (Opt (Car c)) (\<lambda>x. x = [] \<or> x = [c])"
proof -
  have "describe (Opt (Car c)) (\<lambda>x. (\<exists>d. x = [d] \<and> d = c) \<or> x = [])"
    unfolding Opt_def Car_def by (rule describe_Alt[OF describe_Cls describe_Vacio])
  then show ?thesis by (rule describe_igual) auto
qed

lemma describe_LitI: "describe (LitI w) (\<lambda>x. py_lower x = py_lower w)"
proof (induction w rule: induct_list012)
  case 1
  have "describe (LitI []) (\<lambda>x. x = [])" unfolding LitI_def by (simp add: describe_Vacio)
  then show ?case by (rule describe_igual) (simp add: py_lower_def)
next
  case (2 c)
  have "describe (LitI [c]) (\<lambda>x. \<exists>d. x = [d] \<and> py_lower_char d = py_lower_char c)"
    unfolding LitI_def CarI_def by (simp add: describe_Cls)
  then show ?case by (rule describe_igual) (auto simp: py_lower_def)
next
  case (3 c d w)
  have e: "LitI (c # d # w) = Sec (CarI c) (LitI (d # w))" by (simp add: LitI_def)
  have "describe (CarI c) (\<lambda>x. \<exists>e. x = [e] \<and> py_lower_char e = py_lower_char c)"
    unfolding CarI_def by (rule describe_Cls)
  from describe_Sec[OF this 3(2)]
  have "describe (LitI (c # d # w)) (\<lambda>x. \<exists>y z. x = y @ z \<and> (\<exists>e. y = [e] \<and> py_lower_char e = py_lower_char c)
            \<and> py_lower z = py_lower (d # w))"
    unfolding e .
  then show ?case
  proof (rule describe_igual)
    fix x :: string
    show "(\<exists>y z. x = y @ z \<and> (\<exists>e. y = [e] \<and> py_lower_char e = py_lower_char c)
            \<and> py_lower z = py_lower (d # w)) = (py_lower x = py_lower (c # d # w))"
    proof (cases x)
      case Nil
      then show ?thesis by (simp add: py_lower_def)
    next
      case (Cons a l)
      have "py_lower_char a = py_lower_char c \<and> py_lower l = py_lower (d # w) \<Longrightarrow>
             \<exists>y z. a # l = y @ z \<and> (\<exists>e. y = [e] \<and> py_lower_char e = py_lower_char c)
               \<and> py_lower z = py_lower (d # w)"
        by (intro exI[of _ "[a]"] exI[of _ l]) simp
      with Cons show ?thesis by (auto simp: py_lower_def)
    qed
  qed
qed

section \<open>The bet-name exclusion by markers\<close>

lemma describe_pase_de:
  assumes "py_lower ordinal = ordinal"
  shows "describe (pase_de ordinal) (con_pase ordinal True)"
proof -
  have "describe (pase_de ordinal)
          (\<lambda>x. \<exists>a r1. x = a @ r1 \<and> py_lower a = py_lower ordinal \<and>
             (\<exists>p r2. r1 = p @ r2 \<and> (p = [] \<or> p = ''.'') \<and>
               (\<exists>ws b. r2 = ws @ b \<and> list_all py_isspace ws \<and> py_lower b = py_lower ''pase'')))"
    unfolding pase_de_def Secs.simps Esp_def
    by (intro describe_Sec describe_LitI describe_Opt_Car describe_Star_Cls)
  moreover have p: "py_lower ''pase'' = ''pase''" by code_simp
  ultimately have "describe (pase_de ordinal)
          (\<lambda>x. \<exists>a r1. x = a @ r1 \<and> py_lower a = ordinal \<and>
             (\<exists>p r2. r1 = p @ r2 \<and> (p = [] \<or> p = ''.'') \<and>
               (\<exists>ws b. r2 = ws @ b \<and> list_all py_isspace ws \<and> py_lower b = ''pase'')))"
    using assms by simp
  then show ?thesis
    by (rule describe_igual) (simp add: con_pase_def, blast)
qed

lemma describe_palabra_pase:
  assumes "py_lower palabra = palabra"
  shows "describe (Secs [LitI palabra, Star Esp, LitI ''pase'']) (con_pase palabra False)"
proof -
  have "describe (Secs [LitI palabra, Star Esp, LitI ''pase''])
          (\<lambda>x. \<exists>a r1. x = a @ r1 \<and> py_lower a = py_lower palabra \<and>
               (\<exists>ws b. r1 = ws @ b \<and> list_all py_isspace ws \<and> py_lower b = py_lower ''pase''))"
    unfolding Secs.simps Esp_def
    by (intro describe_Sec describe_LitI describe_Star_Cls)
  moreover have p: "py_lower ''pase'' = ''pase''" by code_simp
  ultimately have "describe (Secs [LitI palabra, Star Esp, LitI ''pase''])
          (\<lambda>x. \<exists>a r1. x = a @ r1 \<and> py_lower a = palabra \<and>
               (\<exists>ws b. r1 = ws @ b \<and> list_all py_isspace ws \<and> py_lower b = ''pase''))"
    using assms by simp
  then show ?thesis
  proof (rule describe_igual)
    fix x :: string
    show "(\<exists>a r1. x = a @ r1 \<and> py_lower a = palabra \<and>
               (\<exists>ws b. r1 = ws @ b \<and> list_all py_isspace ws \<and> py_lower b = ''pase''))
          = con_pase palabra False x"
      unfolding con_pase_def
    proof
      assume "\<exists>a r1. x = a @ r1 \<and> py_lower a = palabra \<and>
               (\<exists>ws b. r1 = ws @ b \<and> list_all py_isspace ws \<and> py_lower b = ''pase'')"
      then obtain a ws b where "x = a @ [] @ ws @ b" "py_lower a = palabra" "list_all py_isspace ws"
        "py_lower b = ''pase''" by auto
      then show "\<exists>a p ws b. x = a @ p @ ws @ b \<and> py_lower a = palabra \<and> (p = [] \<or> False \<and> p = ''.'')
          \<and> list_all py_isspace ws \<and> py_lower b = ''pase''" by blast
    next
      assume "\<exists>a p ws b. x = a @ p @ ws @ b \<and> py_lower a = palabra \<and> (p = [] \<or> False \<and> p = ''.'')
          \<and> list_all py_isspace ws \<and> py_lower b = ''pase''"
      then obtain a ws b where "x = a @ ws @ b" "py_lower a = palabra" "list_all py_isspace ws"
        "py_lower b = ''pase''" by auto
      then show "\<exists>a r1. x = a @ r1 \<and> py_lower a = palabra \<and>
               (\<exists>ws b. r1 = ws @ b \<and> list_all py_isspace ws \<and> py_lower b = ''pase'')" by blast
    qed
  qed
qed

lemma re_search_describe:
  assumes "describe r G"
  shows "re_search r s \<noteq> None \<longleftrightarrow> (\<exists>i j. i \<le> j \<and> j \<le> length s \<and> G (subcadena s i j))"
proof -
  have "re_search r s \<noteq> None \<longleftrightarrow> (\<exists>i j. i \<le> length s \<and> acepta s r i j)" by (rule re_search_acepta)
  also from assms have "\<dots> \<longleftrightarrow> (\<exists>i j. i \<le> length s \<and> i \<le> j \<and> j \<le> length s \<and> G (subcadena s i j))"
    unfolding describe_def by blast
  also have "\<dots> \<longleftrightarrow> (\<exists>i j. i \<le> j \<and> j \<le> length s \<and> G (subcadena s i j))"
    using le_trans by blast
  finally show ?thesis .
qed

lemma acepta_Alt_iff: "acepta s (Alt a b) i j \<longleftrightarrow> acepta s a i j \<or> acepta s b i j"
  by (auto elim: acepta_AltE intro: acepta.intros)

lemma acepta_entre_bordes:
  "acepta s (Secs [Borde, r, Borde]) i j \<longleftrightarrow> es_borde s i \<and> acepta s r i j \<and> es_borde s j"
proof
  assume "acepta s (Secs [Borde, r, Borde]) i j"
  then obtain k where k: "acepta s Borde i k" "acepta s (Sec r Borde) k j" by (auto elim: acepta_SecE)
  from k(1) have 1: "k = i" "es_borde s i" by (auto elim: acepta_BordeE)
  from k(2) obtain m where m: "acepta s r k m" "acepta s Borde m j" by (auto elim: acepta_SecE)
  from m(2) have 2: "m = j" "es_borde s j" by (auto elim: acepta_BordeE)
  from 1 2 m(1) show "es_borde s i \<and> acepta s r i j \<and> es_borde s j" by simp
next
  assume a: "es_borde s i \<and> acepta s r i j \<and> es_borde s j"
  then have "acepta s Borde i i" "acepta s Borde j j" by (simp_all add: acepta.intros)
  with a have "acepta s (Sec Borde (Sec r Borde)) i j" by (blast intro: acepta.intros)
  then show "acepta s (Secs [Borde, r, Borde]) i j" by simp
qed

lemma minusculas: "py_lower ''2do'' = ''2do''" "py_lower ''3er'' = ''3er''" "py_lower ''4to'' = ''4to''"
  "py_lower ''5to'' = ''5to''" "py_lower ''ultimo'' = ''ultimo''" "py_lower ''final'' = ''final''"
  "py_lower ''1er'' = ''1er''" "py_lower ''1re'' = ''1re''"
  by code_simp+

lemma buscar_pase_posterior:
  "re_search PATRON_EXCLUIR_PASE_SIN_FINAL nombre \<noteq> None \<longleftrightarrow> contiene_pase_posterior nombre"
proof -
  have "describe PATRON_EXCLUIR_PASE_SIN_FINAL
          (\<lambda>x. con_pase ''2do'' True x \<or> con_pase ''3er'' True x \<or> con_pase ''4to'' True x
             \<or> con_pase ''5to'' True x \<or> con_pase ''ultimo'' False x)"
    unfolding PATRON_EXCLUIR_PASE_SIN_FINAL_def Alts.simps
    by (intro describe_Alt describe_pase_de describe_palabra_pase minusculas)
  from re_search_describe[OF this] show ?thesis by (simp add: contiene_pase_posterior_def)
qed

lemma buscar_final: "re_search PATRON_FINAL nombre \<noteq> None \<longleftrightarrow> contiene_final nombre"
proof -
  let ?s = nombre
  have d1: "describe (LitI ''final'') (\<lambda>x. py_lower x = ''final'')"
    using describe_LitI[of "''final''"] by (simp add: minusculas)
  have d2: "describe (Secs [LitI ''final'', Star Esp, LitI ''pase'']) (con_pase ''final'' False)"
    by (intro describe_palabra_pase minusculas)
  have "re_search PATRON_FINAL ?s \<noteq> None \<longleftrightarrow> (\<exists>i j. i \<le> length ?s \<and> acepta ?s PATRON_FINAL i j)"
    by (rule re_search_acepta)
  also have "\<dots> \<longleftrightarrow> (\<exists>i j. i \<le> length ?s \<and> ((es_borde ?s i \<and> acepta ?s (LitI ''final'') i j \<and> es_borde ?s j)
        \<or> acepta ?s (Secs [LitI ''final'', Star Esp, LitI ''pase'']) i j))"
    unfolding PATRON_FINAL_def acepta_Alt_iff acepta_entre_bordes by (rule refl)
  also have "\<dots> \<longleftrightarrow> (\<exists>i j. i \<le> length ?s \<and> i \<le> j \<and> j \<le> length ?s
        \<and> ((py_lower (subcadena ?s i j) = ''final'' \<and> es_borde ?s i \<and> es_borde ?s j)
           \<or> con_pase ''final'' False (subcadena ?s i j)))"
    using d1 d2 unfolding describe_def by blast
  also have "\<dots> \<longleftrightarrow> contiene_final ?s" unfolding contiene_final_def using le_trans by blast
  finally show ?thesis .
qed

lemma buscar_primer_pase: "re_search PATRON_PRIMER_PASE nombre \<noteq> None \<longleftrightarrow> contiene_primer_pase nombre"
proof -
  let ?s = nombre
  have d1: "describe (pase_de ''1er'') (con_pase ''1er'' True)"
    by (intro describe_pase_de minusculas)
  have d2: "describe (pase_de ''1re'') (con_pase ''1re'' True)"
    by (intro describe_pase_de minusculas)
  have "re_search PATRON_PRIMER_PASE ?s \<noteq> None \<longleftrightarrow> (\<exists>i j. i \<le> length ?s \<and> acepta ?s PATRON_PRIMER_PASE i j)"
    by (rule re_search_acepta)
  also have "\<dots> \<longleftrightarrow> (\<exists>i j. i \<le> length ?s \<and> ((es_borde ?s i \<and> acepta ?s (pase_de ''1er'') i j \<and> es_borde ?s j)
        \<or> (es_borde ?s i \<and> acepta ?s (pase_de ''1re'') i j \<and> es_borde ?s j)))"
    unfolding PATRON_PRIMER_PASE_def acepta_Alt_iff acepta_entre_bordes by (rule refl)
  also have "\<dots> \<longleftrightarrow> (\<exists>i j. i \<le> length ?s \<and> i \<le> j \<and> j \<le> length ?s \<and> es_borde ?s i \<and> es_borde ?s j
        \<and> (con_pase ''1er'' True (subcadena ?s i j) \<or> con_pase ''1re'' True (subcadena ?s i j)))"
    using d1 d2 unfolding describe_def by blast
  also have "\<dots> \<longleftrightarrow> contiene_primer_pase ?s" unfolding contiene_primer_pase_def using le_trans by blast
  finally show ?thesis .
qed

lemma sin_marcas_vacio:
  "re_search PATRON_EXCLUIR_PASE_SIN_FINAL [] = None \<and> re_search PATRON_FINAL [] = None"
  by code_simp

text \<open>
  C3. A name whose trimmed lower-case form begins with \<^verbatim>\<open>doble\<close> is never excluded,
  whatever else it contains. Any other name is excluded exactly when it contains a marker of
  the second, third, fourth, fifth or last stage, or, without such a marker, when it contains
  \<^verbatim>\<open>final\<close> (as a whole word, or followed by \<^verbatim>\<open>pase\<close>) and no marker of the first
  stage. So a later-stage marker excludes a name even when \<^verbatim>\<open>final\<close> and a first-stage
  marker are there too.
\<close>

theorem es_apuesta_excluida_reglas:
  "es_apuesta_excluida nombre =
     (\<not> py_startswith (py_lower (py_strip nombre)) ''doble''
      \<and> (contiene_pase_posterior nombre \<or> (contiene_final nombre \<and> \<not> contiene_primer_pase nombre)))
   \<and> es_apuesta_excluida ''2do.Pase'' = True
   \<and> es_apuesta_excluida ''Doble Plus'' = False
   \<and> es_apuesta_excluida ''Final'' = True
   \<and> es_apuesta_excluida ''Final 1er.Pase'' = False"
proof -
  have 1: "es_apuesta_excluida nombre =
     (\<not> py_startswith (py_lower (py_strip nombre)) ''doble''
      \<and> (contiene_pase_posterior nombre \<or> (contiene_final nombre \<and> \<not> contiene_primer_pase nombre)))"
  proof (cases "nombre = []")
    case True
    from sin_marcas_vacio have "\<not> contiene_pase_posterior []" "\<not> contiene_final []"
      unfolding buscar_pase_posterior[symmetric] buscar_final[symmetric] by simp_all
    with True show ?thesis by (simp add: es_apuesta_excluida_def)
  next
    case False
    then show ?thesis
      unfolding buscar_pase_posterior[symmetric] buscar_final[symmetric] buscar_primer_pase[symmetric]
      by (simp add: es_apuesta_excluida_def)
  qed
  have 2: "es_apuesta_excluida ''2do.Pase'' = True" by code_simp
  have 3: "es_apuesta_excluida ''Doble Plus'' = False" by code_simp
  have 4: "es_apuesta_excluida ''Final'' = True" by code_simp
  have 5: "es_apuesta_excluida ''Final 1er.Pase'' = False" by code_simp
  from 1 2 3 4 5 show ?thesis by blast
qed

lemma marcas_de_Final:
  "\<not> py_startswith (py_lower (py_strip ''Final'')) ''doble''
   \<and> re_search PATRON_FINAL ''Final'' \<noteq> None \<and> re_search PATRON_PRIMER_PASE ''Final'' = None"
  by code_simp

theorem es_apuesta_excluida_reglas_witness:
  "contiene_final ''Final'' \<and> \<not> contiene_primer_pase ''Final'' \<and> es_apuesta_excluida ''Final''"
proof -
  from marcas_de_Final have f: "contiene_final ''Final''" "\<not> contiene_primer_pase ''Final''"
    unfolding buscar_final[symmetric] buscar_primer_pase[symmetric] by simp_all
  with marcas_de_Final es_apuesta_excluida_reglas[of "''Final''", THEN conjunct1]
  have "es_apuesta_excluida ''Final''" by simp
  with f show ?thesis by simp
qed

theorem es_apuesta_excluida_counterexample:
  "re_search PATRON_FINAL ''Final 1er.Pase 2do.Pase'' \<noteq> None
   \<and> re_search PATRON_PRIMER_PASE ''Final 1er.Pase 2do.Pase'' \<noteq> None
   \<and> es_apuesta_excluida ''Final 1er.Pase 2do.Pase'' = True
   \<and> re_search PATRON_EXCLUIR_PASE_SIN_FINAL ''Doble 2do.Pase'' \<noteq> None
   \<and> es_apuesta_excluida ''Doble 2do.Pase'' = False"
  by code_simp

end
